theory Spec2Isabelle
  imports Complex_Main "HOL-Library.List_Lexorder" "HOL-Library.Char_ord"
begin

section \<open>Byte strings and text strings\<close>

text \<open>
  A Python \<open>bytes\<close> value is a list of 8-bit characters, and so is a Python \<open>str\<close> in this
  development. The UTF-8 codec (with its \<open>replace\<close> error handler) and \<open>str.lower\<close> are
  library functions of Python; the frame codec takes them as a parameter, a \<open>codec\<close>, so
  that every general result below holds for whatever they compute. \<open>ascii_codec\<close> is
  what they compute on 7-bit input, and is used to run the code on concrete frames, all
  of which are 7-bit.
\<close>

type_synonym bytes = "char list"
type_synonym str = "char list"

record codec =
  utf8_decode :: "bytes \<Rightarrow> str"
  utf8_encode :: "str \<Rightarrow> bytes"
  str_lower :: "str \<Rightarrow> str"

definition ascii_lower_char :: "char \<Rightarrow> char" where
  "ascii_lower_char c =
     (case map_of (zip ''ABCDEFGHIJKLMNOPQRSTUVWXYZ'' ''abcdefghijklmnopqrstuvwxyz'') c of
        None \<Rightarrow> c | Some l \<Rightarrow> l)"

definition ascii_only :: "char \<Rightarrow> char" where
  "ascii_only c = (if (of_char c :: nat) < 128 then c else CHR ''?'')"

definition ascii_codec :: codec where
  "ascii_codec = \<lparr>utf8_decode = map ascii_only, utf8_encode = map ascii_only,
                   str_lower = map ascii_lower_char\<rparr>"

abbreviation NUL :: char where
  "NUL \<equiv> CHR 0x00"

text \<open>\<open>text.endswith(suffix)\<close>.\<close>

definition endswith :: "'a list \<Rightarrow> 'a list \<Rightarrow> bool" where
  "endswith text suf \<longleftrightarrow>
     length suf \<le> length text \<and> drop (length text - length suf) text = suf"

text \<open>\<open>int.from_bytes(bs, 'big')\<close>.\<close>

definition from_bytes_big :: "bytes \<Rightarrow> nat" where
  "from_bytes_big bs = foldl (\<lambda>acc b. acc * 256 + of_char b) 0 bs"

text \<open>
  \<open>text.split(sep)\<close> for a separator of one byte: one more piece than separators, so the
  result is never empty.
\<close>

fun bytes_split :: "'a \<Rightarrow> 'a list \<Rightarrow> 'a list list" where
  "bytes_split sep [] = [[]]"
| "bytes_split sep (x # xs) =
     (if x = sep then [] # bytes_split sep xs
      else (case bytes_split sep xs of [] \<Rightarrow> [[x]] | t # ts \<Rightarrow> (x # t) # ts))"

text \<open>\<open>sep.join(items)\<close>.\<close>

fun join :: "'a list \<Rightarrow> 'a list list \<Rightarrow> 'a list" where
  "join sep [] = []"
| "join sep [x] = x"
| "join sep (x # y # rest) = x @ sep @ join sep (y # rest)"

section \<open>Errors\<close>

text \<open>
  Modelled from the spec: the module \<open>errors\<close> is not among the sources. Its parser
  exceptions are the failure kinds of the codec (incomplete, size, invalid, and the
  duplicate-value error the parser raises), all of them kinds of \<open>ParserError\<close>;
  \<open>UserError\<close> and \<open>GroupError\<close> are the domain errors the dispatcher names. The other
  constructors are exceptions of Python itself. Each carries its message.
\<close>

datatype error =
    ParserIncompleteError str
  | ParserSizeError str
  | ParserInvalidError str
  | ParserValueError str
  | UserError str
  | GroupError str
  | TypeError str
  | NameError str
  | KeyError str
  | AttributeError str
  | OverflowError str

fun is_ParserError :: "error \<Rightarrow> bool" where
  "is_ParserError (ParserIncompleteError m) = True"
| "is_ParserError (ParserSizeError m) = True"
| "is_ParserError (ParserInvalidError m) = True"
| "is_ParserError (ParserValueError m) = True"
| "is_ParserError e = False"

text \<open>\<open>str(e)\<close> of an exception: its message.\<close>

fun str_of_error :: "error \<Rightarrow> str" where
  "str_of_error (ParserIncompleteError m) = m"
| "str_of_error (ParserSizeError m) = m"
| "str_of_error (ParserInvalidError m) = m"
| "str_of_error (ParserValueError m) = m"
| "str_of_error (UserError m) = m"
| "str_of_error (GroupError m) = m"
| "str_of_error (TypeError m) = m"
| "str_of_error (NameError m) = m"
| "str_of_error (KeyError m) = m"
| "str_of_error (AttributeError m) = m"
| "str_of_error (OverflowError m) = m"

section \<open>Frames (parser.py)\<close>

definition MAXFRAME :: nat where
  "MAXFRAME = 1400"

definition MAXTARGET :: nat where
  "MAXTARGET = 48"

text \<open>
  The key/value part of a frame is a Python dict from a key to the list of its values. It
  is kept as an association list in insertion order, which is the order \<open>items()\<close>
  yields (from Python 3.7 on); keys are unique in it.
\<close>

type_synonym kval = "(str \<times> str list) list"

record frame =
  source :: str
  target :: str
  command :: str
  kval :: kval

text \<open>\<open>kval[k]\<close> on the \<open>defaultdict(list)\<close>: a missing key reads as the empty list.\<close>

definition kv_get :: "kval \<Rightarrow> str \<Rightarrow> str list" where
  "kv_get kv k = (case map_of kv k of None \<Rightarrow> [] | Some vs \<Rightarrow> vs)"

text \<open>\<open>kval[k].append(v)\<close>.\<close>

fun kv_append :: "kval \<Rightarrow> str \<Rightarrow> str \<Rightarrow> kval" where
  "kv_append [] k v = [(k, [v])]"
| "kv_append ((k', vs) # rest) k v =
     (if k' = k then (k', vs @ [v]) # rest else (k', vs) # kv_append rest k v)"

text \<open>The (key, value) entries a dictionary holds.\<close>

definition entries :: "kval \<Rightarrow> (str \<times> str) set" where
  "entries kv = {(k, v). v \<in> set (kv_get kv k)}"

subsection \<open>The binary dialect: \<open>Frame.parse\<close>\<close>

definition terminator :: bytes where
  "terminator = [NUL, NUL]"

text \<open>
  Lines 50 to 52: the bytes after the two length bytes and their separator are split at
  every null, and one empty last token is deleted.
\<close>

definition tokenise :: "bytes \<Rightarrow> bytes list" where
  "tokenise text =
     (let toks = bytes_split NUL (drop 3 text)
      in if last toks = [] then butlast toks else toks)"

text \<open>
  Lines 64 to 74: the tokens after the command, with one \<open>*\<close> appended when their number
  is odd, and the pairs that \<open>zip\<close> draws from the one shared iterator.
\<close>

definition kv_tokens :: "bytes list \<Rightarrow> bytes list" where
  "kv_tokens toks =
     (if length toks > 3
      then (if (length toks - 3) mod 2 \<noteq> 0 then drop 3 (toks @ [''*'']) else drop 3 toks)
      else [])"

fun pairs :: "'a list \<Rightarrow> ('a \<times> 'a) list" where
  "pairs (k # v # rest) = (k, v) # pairs rest"
| "pairs rest = []"

text \<open>The key and the value a pair of tokens stands for (lines 77 and 78).\<close>

definition decode_pair :: "codec \<Rightarrow> bytes \<times> bytes \<Rightarrow> str \<times> str" where
  "decode_pair cd p = (str_lower cd (utf8_decode cd (fst p)), utf8_decode cd (snd p))"

text \<open>Lines 75 to 82: the loop that fills \<open>kval\<close>.\<close>

fun fill_kval :: "codec \<Rightarrow> (bytes \<times> bytes) list \<Rightarrow> kval \<Rightarrow> error + kval" where
  "fill_kval cd [] kv = Inr kv"
| "fill_kval cd (p # rest) kv =
     (let k = fst (decode_pair cd p); v = snd (decode_pair cd p)
      in if v \<in> set (kv_get kv k)
         then Inl (ParserValueError ''Duplicate value not allowed'')
         else fill_kval cd rest (kv_append kv k v))"

definition parse :: "codec \<Rightarrow> bytes \<Rightarrow> error + frame" where
  "parse cd text =
     (if \<not> endswith text terminator \<or> length text < 10
      then Inl (ParserIncompleteError ''Incomplete frame'')
      else if from_bytes_big (take 2 text) > MAXFRAME
      then Inl (ParserSizeError ''Frame is too large for the wire'')
      else let toks = tokenise text
        in if length toks < 3
           then Inl (ParserInvalidError ''Invalid DCP frame'')
           else (case fill_kval cd (pairs (kv_tokens toks)) [] of
                   Inl e \<Rightarrow> Inl e
                 | Inr kv \<Rightarrow>
                     Inr \<lparr>source = str_lower cd (utf8_decode cd (toks ! 0)),
                          target = str_lower cd (utf8_decode cd (toks ! 1)),
                          command = str_lower cd (utf8_decode cd (toks ! 2)),
                          kval = kv\<rparr>))"

text \<open>
  The pairs of the key/value section of an input, as the loop of \<open>parse\<close> meets them.
\<close>

definition kv_pairs :: "bytes \<Rightarrow> (bytes \<times> bytes) list" where
  "kv_pairs text = pairs (kv_tokens (tokenise text))"

subsection \<open>The binary dialect: \<open>Frame.__bytes__\<close>\<close>

definition len_kv :: "kval \<Rightarrow> int" where
  "len_kv kv = (\<Sum>(k, v) \<leftarrow> kv. \<Sum>v2 \<leftarrow> v. int (length k) + int (length v2) + 2)"

definition generic_len :: "str \<Rightarrow> str \<Rightarrow> str \<Rightarrow> kval \<Rightarrow> int" where
  "generic_len src tgt cmd kv =
     (let llen = 3 + int (length src) + 1 + int (length tgt) + 1 + int (length cmd) + 1 + 2
      in if length kv > 0 then llen + (len_kv kv - 1) else llen)"

text \<open>\<open>int.to_bytes(n, 2, 'big')\<close>.\<close>

definition to_bytes2 :: "nat \<Rightarrow> error + bytes" where
  "to_bytes2 n =
     (if n < 65536 then Inr [char_of (n div 256), char_of (n mod 256)]
      else Inl (OverflowError ''int too big to convert''))"

definition frame_items :: "frame \<Rightarrow> str list" where
  "frame_items f =
     [source f, target f, command f]
     @ concat (map (\<lambda>(k, v). concat (map (\<lambda>v2. [k, v2]) v)) (kval f))
     @ [[NUL]]"

definition Frame_bytes :: "codec \<Rightarrow> frame \<Rightarrow> error + bytes" where
  "Frame_bytes cd f =
     (if generic_len (source f) (target f) (command f) (kval f) > int MAXFRAME - 20
      then Inl (ParserSizeError ''Frame is too large'')
      else let s = join [NUL] (frame_items f)
        in (case to_bytes2 (length s + 3) of
              Inl e \<Rightarrow> Inl e
            | Inr llen \<Rightarrow> Inr (llen @ [NUL] @ utf8_encode cd s)))"

text \<open>
  The number of values a dictionary holds, over all its keys; and what the round trip
  needs of the encoder: it encodes character by character, and the null character as the
  null byte. UTF-8 does, with any error handler.
\<close>

definition num_values :: "kval \<Rightarrow> nat" where
  "num_values kv = (\<Sum>(k, v) \<leftarrow> kv. length v)"

definition encodes_per_character :: "codec \<Rightarrow> bool" where
  "encodes_per_character cd \<longleftrightarrow>
     (\<forall>xs ys. utf8_encode cd (xs @ ys) = utf8_encode cd xs @ utf8_encode cd ys)
     \<and> utf8_encode cd [NUL] = [NUL]"

subsection \<open>The JSON dialect: \<open>JSONFrame.parse\<close>\<close>

text \<open>
  What \<open>json.loads\<close> returns. \<open>json.loads\<close> itself is a library function and a parameter
  of the parser below: it gives the message of the exception it raises, or the value.
  Numbers are kept as integers; the parser never looks into one.
\<close>

datatype json =
    JNull
  | JBool bool
  | JNum int
  | JStr str
  | JList "json list"
  | JDict "(str \<times> json) list"

record jsonframe =
  jsource :: json
  jtarget :: json
  jcommand :: json
  jkval :: "(json \<times> str list) list"

definition JSON_terminator :: bytes where
  "JSON_terminator = [NUL]"

text \<open>
  Lines 149 to 156: \<open>load[0]\<close> and its three keys. Anything that raises there (a value
  that is no list, an empty list, a header that is no object, a missing key) is the one
  error of the \<open>except\<close> clause, here \<open>None\<close>.
\<close>

definition json_header :: "json \<Rightarrow> (json \<times> json \<times> json) option" where
  "json_header load =
     (case load of
        JList (JDict h # rest) \<Rightarrow>
          (case (map_of h ''source'', map_of h ''target'', map_of h ''command'') of
             (Some s, Some t, Some c) \<Rightarrow> Some (s, t, c)
           | _ \<Rightarrow> None)
      | _ \<Rightarrow> None)"

text \<open>
  Keys of a Python dict are compared with \<open>==\<close>, under which \<open>True\<close> is \<open>1\<close> and
  \<open>False\<close> is \<open>0\<close>; lists and objects cannot be keys.
\<close>

fun dict_key :: "json \<Rightarrow> json option" where
  "dict_key (JBool b) = Some (JNum (if b then 1 else 0))"
| "dict_key (JList xs) = None"
| "dict_key (JDict d) = None"
| "dict_key j = Some j"

text \<open>\<open>d[k] = v\<close> on a dict kept in insertion order: a key already there keeps its place.\<close>

fun dict_set :: "(json \<times> json) list \<Rightarrow> json \<Rightarrow> json \<Rightarrow> (json \<times> json) list" where
  "dict_set [] k v = [(k, v)]"
| "dict_set ((k', v') # rest) k v =
     (if dict_key k' = dict_key k then (k', v) # rest else (k', v') # dict_set rest k v)"

text \<open>
  One element of the sequence given to \<open>dict\<close>: it must itself be a sequence of two
  elements, a key and a value. A list of two, a string of two characters and an object
  of two keys all are.
\<close>

fun dict_item :: "json \<Rightarrow> (json \<times> json) option" where
  "dict_item (JList [k, v]) = (if dict_key k = None then None else Some (k, v))"
| "dict_item (JStr [a, b]) = Some (JStr [a], JStr [b])"
| "dict_item (JDict [(a, x), (b, y)]) = Some (JStr a, JStr b)"
| "dict_item j = None"

fun dict_of_items :: "json list \<Rightarrow> (json \<times> json) list \<Rightarrow> (json \<times> json) list option" where
  "dict_of_items [] d = Some d"
| "dict_of_items (x # xs) d =
     (case dict_item x of None \<Rightarrow> None | Some (k, v) \<Rightarrow> dict_of_items xs (dict_set d k v))"

text \<open>\<open>defaultdict(list, x)\<close>: \<open>x\<close> is an object or a sequence of pairs.\<close>

fun defaultdict :: "json \<Rightarrow> (json \<times> json) list option" where
  "defaultdict (JDict d) = Some (map (\<lambda>(k, v). (JStr k, v)) d)"
| "defaultdict (JList xs) = dict_of_items xs []"
| "defaultdict (JStr s) = (if s = [] then Some [] else None)"
| "defaultdict j = None"

text \<open>Lines 160 to 168: every value is a list, and every element of it a string.\<close>

fun str_value :: "json \<Rightarrow> str option" where
  "str_value (JStr s) = Some s"
| "str_value j = None"

fun those_strs :: "json list \<Rightarrow> str list option" where
  "those_strs [] = Some []"
| "those_strs (x # xs) =
     (case (str_value x, those_strs xs) of (Some s, Some ss) \<Rightarrow> Some (s # ss) | _ \<Rightarrow> None)"

fun validate_kval :: "(json \<times> json) list \<Rightarrow> (json \<times> str list) list option" where
  "validate_kval [] = Some []"
| "validate_kval ((k, JList vs) # rest) =
     (case (those_strs vs, validate_kval rest) of
        (Some ss, Some kv) \<Rightarrow> Some ((k, ss) # kv)
      | _ \<Rightarrow> None)"
| "validate_kval ((k, v) # rest) = None"

definition json_kval :: "json \<Rightarrow> (json \<times> str list) list option" where
  "json_kval load =
     (case load of
        JList (h # x # rest) \<Rightarrow>
          (case defaultdict x of None \<Rightarrow> None | Some d \<Rightarrow> validate_kval d)
      | _ \<Rightarrow> Some [])"

definition JSONFrame_parse :: "codec \<Rightarrow> (str \<Rightarrow> str + json) \<Rightarrow> bytes \<Rightarrow> error + jsonframe" where
  "JSONFrame_parse cd loads text =
     (if \<not> endswith text JSON_terminator \<or> length text < 10
      then Inl (ParserIncompleteError ''Incomplete frame'')
      else if length text < 20
      then Inl (ParserSizeError ''Frame is too small'')
      else if length text > MAXFRAME
      then Inl (ParserSizeError ''Frame is too large'')
      else (case loads (utf8_decode cd text) of
              Inl msg \<Rightarrow> Inl (ParserSizeError msg)
            | Inr load \<Rightarrow>
                (case json_header load of
                   None \<Rightarrow> Inl (ParserInvalidError ''Bad JSON frame header'')
                 | Some (s, t, c) \<Rightarrow>
                     (case json_kval load of
                        None \<Rightarrow> Inl (ParserInvalidError ''Bad JSON frame key/values'')
                      | Some kv \<Rightarrow>
                          Inr \<lparr>jsource = s, jtarget = t, jcommand = c, jkval = kv\<rparr>))))"

text \<open>
  \<open>json.loads\<close> on a text that begins with no JSON value: the first character is neither
  white space nor one a value can begin with (a quote, a bracket, a brace, a minus sign,
  a digit, or the first letter of \<open>true\<close>, \<open>false\<close>, \<open>null\<close>, \<open>NaN\<close> and \<open>Infinity\<close>). The
  decoder raises at position 0, with the message below. \<open>loads_no_value\<close> is \<open>json.loads\<close> on
  such texts, and is applied to such texts only.
\<close>

definition begins_no_value :: "str \<Rightarrow> bool" where
  "begins_no_value s \<longleftrightarrow>
     s \<noteq> [] \<and>
     hd s \<notin> set ([CHR 0x20, CHR 0x09, CHR 0x0A, CHR 0x0D, CHR 0x22] @ ''[{-0123456789tfnNI'')"

definition loads_no_value :: "str \<Rightarrow> str + json" where
  "loads_no_value s = Inl ''Expecting value: line 1 column 1 (char 0)''"

subsection \<open>Concrete inputs\<close>

text \<open>
  A binary input of 1403 bytes that declares a length of 10: three header bytes, the
  tokens \<open>a\<close>, \<open>b\<close>, \<open>c\<close>, a key of 1392 letters with an empty value, and the terminator.
\<close>

definition long_input :: bytes where
  "long_input =
     [NUL, CHR 0x0A, NUL] @ ''a'' @ [NUL] @ ''b'' @ [NUL] @ ''c'' @ [NUL]
     @ replicate 1392 (CHR ''x'') @ [NUL, NUL]"

text \<open>A binary input that declares 1500 bytes.\<close>

definition oversize_input :: bytes where
  "oversize_input =
     [CHR 0x05, CHR 0xDC, NUL] @ ''a'' @ [NUL] @ ''b'' @ [NUL] @ ''c'' @ [NUL, NUL]"

text \<open>
  A binary input of 12 bytes with a key and no value for it: after the command comes the
  one token \<open>k\<close>, then the terminator.
\<close>

definition dangling_input :: bytes where
  "dangling_input =
     [NUL, CHR 0x0C, NUL] @ ''a'' @ [NUL] @ ''b'' @ [NUL] @ ''c'' @ [NUL] @ ''k'' @ [NUL, NUL]"

text \<open>A binary input that gives the value \<open>v\<close> twice under the key \<open>k\<close> (once as \<open>K\<close>).\<close>

definition dup_input :: bytes where
  "dup_input =
     [NUL, CHR 0x12, NUL] @ ''a'' @ [NUL] @ ''b'' @ [NUL] @ ''c'' @ [NUL]
     @ ''k'' @ [NUL] @ ''v'' @ [NUL] @ ''K'' @ [NUL] @ ''v'' @ [NUL, NUL]"

text \<open>A JSON input of 25 bytes that is no JSON text.\<close>

definition bad_json_input :: bytes where
  "bad_json_input = ''<this is not valid json>'' @ [NUL]"

text \<open>A frame of the data model, lowercase and with one value.\<close>

definition message_frame :: frame where
  "message_frame =
     \<lparr>source = ''alice'', target = ''bob'', command = ''message'',
      kval = [(''body'', [''hi''])]\<rparr>"

text \<open>The bytes \<open>Frame.__bytes__\<close> gives for it: 30 bytes, as the first two say.\<close>

definition message_frame_bytes :: bytes where
  "message_frame_bytes =
     [NUL, CHR 0x1E, NUL] @ ''alice'' @ [NUL] @ ''bob'' @ [NUL] @ ''message'' @ [NUL]
     @ ''body'' @ [NUL] @ ''hi'' @ [NUL, NUL]"

section \<open>The server (server.py)\<close>

subsection \<open>Python values the server code relies on\<close>

text \<open>\<open>str(n)\<close> of an integer: its decimal digits.\<close>

definition digit_char :: "nat \<Rightarrow> char" where
  "digit_char d = ''0123456789'' ! d"

function str_of_nat :: "nat \<Rightarrow> str" where
  "str_of_nat n =
     (if n < 10 then [digit_char n] else str_of_nat (n div 10) @ [digit_char (n mod 10)])"
  by pat_completeness auto
termination
  by (relation "measure id") auto

declare str_of_nat.simps [simp del]

definition str_of_int :: "int \<Rightarrow> str" where
  "str_of_int i = (if i < 0 then CHR ''-'' # str_of_nat (nat (- i)) else str_of_nat (nat i))"

text \<open>\<open>s.startswith(p)\<close> and \<open>s.replace('-', '_')\<close>.\<close>

definition startswith :: "str \<Rightarrow> str \<Rightarrow> bool" where
  "startswith s p \<longleftrightarrow> take (length p) s = p"

definition replace_hyphens :: "str \<Rightarrow> str" where
  "replace_hyphens s = map (\<lambda>c. if c = CHR ''-'' then CHR ''_'' else c) s"

text \<open>
  \<open>data.partition(sep)\<close>: the text before the first \<open>sep\<close> and the text after it, if there
  is one. \<open>data.rpartition(sep)\<close> splits at the last \<open>sep\<close> and, when there is none, gives
  two empty strings and then \<open>data\<close>.
\<close>

fun partition_first :: "'a list \<Rightarrow> 'a list \<Rightarrow> ('a list \<times> 'a list) option" where
  "partition_first sep [] = (if sep = [] then Some ([], []) else None)"
| "partition_first sep (x # xs) =
     (if take (length sep) (x # xs) = sep then Some ([], drop (length sep) (x # xs))
      else (case partition_first sep xs of
              None \<Rightarrow> None
            | Some (h, t) \<Rightarrow> Some (x # h, t)))"

definition rpartition :: "'a list \<Rightarrow> 'a list \<Rightarrow> 'a list \<times> 'a list \<times> 'a list" where
  "rpartition sep data =
     (case partition_first (rev sep) (rev data) of
        None \<Rightarrow> ([], [], data)
      | Some (h, t) \<Rightarrow> (rev t, sep, rev h))"

text \<open>
  The values the code passes for \<open>fatal\<close> and \<open>extargs\<close>, which Python only tests for
  truth: a boolean, \<open>None\<close>, or a dictionary (true when it is not empty).
\<close>

datatype pyval = PyBool bool | PyNone | PyDict kval

fun truthy :: "pyval \<Rightarrow> bool" where
  "truthy (PyBool b) = b"
| "truthy PyNone = False"
| "truthy (PyDict d) = (d \<noteq> [])"

text \<open>\<open>d[k] = v\<close> and \<open>d.update(other)\<close> on a dictionary in insertion order.\<close>

fun kv_set :: "kval \<Rightarrow> str \<Rightarrow> str list \<Rightarrow> kval" where
  "kv_set [] k v = [(k, v)]"
| "kv_set ((k', v') # rest) k v =
     (if k' = k then (k', v) # rest else (k', v') # kv_set rest k v)"

definition kv_update :: "kval \<Rightarrow> kval \<Rightarrow> kval" where
  "kv_update kv other = foldl (\<lambda>d (k, v). kv_set d k v) kv other"

subsection \<open>Users, connections and the server\<close>

text \<open>
  Modelled from the spec: the class \<open>Group\<close> (module \<open>group\<close>) is not among the sources. A
  group has a name and properties, and \<open>has_property\<close> is membership in them.
\<close>

record group =
  gname :: str
  gproperties :: "str list"

definition has_property :: "group \<Rightarrow> str \<Rightarrow> bool" where
  "has_property g p \<longleftrightarrow> p \<in> set (gproperties g)"

text \<open>
  Modelled from the spec: the class \<open>User\<close> (module \<open>user\<close>) is not among the sources. A
  user has the attributes that the data model of the spec and the server code name: the
  handle, the gecos, the ACL set, properties, options, the connection \<open>proto\<close> that owns
  it, the groups it has entered, and the pending-ping flag \<open>timeout\<close>. \<open>has_acl\<close> is
  membership in the ACL set.
\<close>

record user =
  uname :: str
  gecos :: str
  acl :: "str list"
  properties :: "str list"
  options :: "str list"
  uproto :: nat
  ugroups :: "group list"
  timeout :: bool

definition has_acl :: "user \<Rightarrow> str \<Rightarrow> bool" where
  "has_acl u a \<longleftrightarrow> a \<in> set (acl u)"

text \<open>
  Modelled from the spec: the constructor \<open>User(proto, name, gecos, acls, properties,
  options)\<close>, not among the sources, gives a user that has entered no group and has no
  ping pending.
\<close>

definition new_user :: "nat \<Rightarrow> str \<Rightarrow> str \<Rightarrow> str list \<Rightarrow> str list \<Rightarrow> str list \<Rightarrow> user" where
  "new_user c name gecos' acls props opts =
     \<lparr>uname = name, gecos = gecos', acl = acls, properties = props, options = opts,
      uproto = c, ugroups = [], timeout = False\<rparr>"

text \<open>
  A \<open>DCPProto\<close>, one per connection: the read buffer \<open>__buf\<close>, the user (none before
  signon), the named timers with their delay in hundredths of a second, and the
  transport, of which the model keeps what was written to it and whether \<open>close()\<close> was
  called.
\<close>

record dcpproto =
  buf :: bytes
  puser :: "user option"
  callbacks :: "str \<rightharpoonup> nat"
  written :: "bytes list"
  closed :: bool

text \<open>
  The \<open>DCPServer\<close>. Connections are objects the server code reaches through references;
  here they live in the server state, each under a number.
\<close>

record server =
  sname :: str
  servpass :: "str option"
  users :: "str \<rightharpoonup> user"
  groups :: "str \<rightharpoonup> group"
  motd :: "str list list"
  protos :: "nat \<Rightarrow> dcpproto"

definition upd_proto :: "nat \<Rightarrow> (dcpproto \<Rightarrow> dcpproto) \<Rightarrow> server \<Rightarrow> server" where
  "upd_proto c f s = s\<lparr>protos := (protos s)(c := f (protos s c))\<rparr>"

text \<open>
  An assignment to an attribute of a user object: every reference sees it, the one in
  \<open>users\<close> and the one of the user's connection.
\<close>

definition set_user :: "user \<Rightarrow> server \<Rightarrow> server" where
  "set_user u s =
     upd_proto (uproto u) (\<lambda>p. p\<lparr>puser := Some u\<rparr>)
       (s\<lparr>users := (if uname u \<in> dom (users s) then (users s)(uname u \<mapsto> u) else users s)\<rparr>)"

text \<open>
  A statement either completes or raises; the state it leaves is kept in both cases.
  \<open>then_do\<close> is the sequence of two statements.
\<close>

type_synonym outcome = "error option \<times> server"

definition then_do :: "outcome \<Rightarrow> (server \<Rightarrow> outcome) \<Rightarrow> outcome" where
  "then_do r f = (case r of (Some e, s) \<Rightarrow> (Some e, s) | (None, s) \<Rightarrow> f s)"

subsection \<open>\<open>DCPProto.send\<close> and \<open>DCPProto.error\<close>\<close>

text \<open>
  What \<open>send\<close> is given as source or target, and \<open>_proto_name\<close> of it. A \<open>DCPProto\<close> has no
  attribute \<open>name\<close>. Every call of \<open>send\<close> in the code modelled here passes a dictionary,
  so the default \<open>kval=None\<close> is left out.
\<close>

datatype party =
    IsUser str
  | IsGroup str
  | IsDCPProto nat
  | IsDCPServer
  | IsNone
  | IsOther str

fun proto_name :: "server \<Rightarrow> party \<Rightarrow> error + str" where
  "proto_name s (IsUser n) = Inr n"
| "proto_name s (IsGroup n) = Inr n"
| "proto_name s (IsDCPProto c) = Inl (AttributeError ''name'')"
| "proto_name s IsDCPServer = Inr (''='' @ sname s)"
| "proto_name s IsNone = Inr ''*''"
| "proto_name s (IsOther n) = Inr (''&'' @ n)"

definition DCPProto_send ::
  "codec \<Rightarrow> nat \<Rightarrow> party \<Rightarrow> party \<Rightarrow> str \<Rightarrow> kval \<Rightarrow> server \<Rightarrow> outcome" where
  "DCPProto_send cd c src tgt cmd kv s =
     (case proto_name s src of
        Inl e \<Rightarrow> (Some e, s)
      | Inr src_name \<Rightarrow>
          (case proto_name s tgt of
             Inl e \<Rightarrow> (Some e, s)
           | Inr tgt_name \<Rightarrow>
               (case Frame_bytes cd
                       \<lparr>source = src_name, target = tgt_name, command = cmd, kval = kv\<rparr> of
                  Inl e \<Rightarrow> (Some e, s)
                | Inr b \<Rightarrow> (None, upd_proto c (\<lambda>p. p\<lparr>written := written p @ [b]\<rparr>) s))))"

definition user_party :: "user option \<Rightarrow> party" where
  "user_party u = (case u of None \<Rightarrow> IsNone | Some v \<Rightarrow> IsUser (uname v))"

definition DCPProto_error ::
  "codec \<Rightarrow> nat \<Rightarrow> str \<Rightarrow> str \<Rightarrow> pyval \<Rightarrow> pyval \<Rightarrow> server \<Rightarrow> outcome" where
  "DCPProto_error cd c cmd reason fatal extargs s =
     (let kv = [(''command'', [cmd]), (''reason'', [reason])]
      in then_do
           (if truthy extargs
            then (case extargs of
                    PyDict d \<Rightarrow>
                      DCPProto_send cd c IsDCPServer (user_party (puser (protos s c))) ''error''
                        (kv_update kv d) s
                  | _ \<Rightarrow> (Some (TypeError ''object is not iterable''), s))
            else DCPProto_send cd c IsDCPServer (user_party (puser (protos s c))) ''error'' kv s)
           (\<lambda>s'. if truthy fatal
                 then (None, upd_proto c (\<lambda>p. p\<lparr>closed := True\<rparr>) s')
                 else (None, s')))"

text \<open>
  Modelled from the spec: \<open>User.send\<close>, not among the sources, is the per-user outbound
  send; it sends on the connection of the user.
\<close>

definition User_send ::
  "codec \<Rightarrow> user \<Rightarrow> party \<Rightarrow> party \<Rightarrow> str \<Rightarrow> kval \<Rightarrow> server \<Rightarrow> outcome" where
  "User_send cd u src tgt cmd kv s = DCPProto_send cd (uproto u) src tgt cmd kv s"

subsection \<open>\<open>DCPServer.error\<close>\<close>

text \<open>
  The destination of an error is a user or a connection; both branches of the
  \<open>hasattr\<close> test pick the connection.
\<close>

datatype dest = ToUser user | ToProto nat

fun dest_proto :: "dest \<Rightarrow> nat" where
  "dest_proto (ToUser u) = uproto u"
| "dest_proto (ToProto c) = c"

definition DCPServer_error ::
  "codec \<Rightarrow> dest \<Rightarrow> str \<Rightarrow> str \<Rightarrow> pyval \<Rightarrow> pyval \<Rightarrow> server \<Rightarrow> outcome" where
  "DCPServer_error cd d cmd reason fatal extargs s =
     DCPProto_error cd (dest_proto d) cmd reason fatal extargs s"

subsection \<open>Handlers\<close>

text \<open>\<open>cmd_motd\<close>: one empty frame when there is no MOTD, otherwise one frame per block.\<close>

fun motd_blocks :: "codec \<Rightarrow> user \<Rightarrow> str \<Rightarrow> nat \<Rightarrow> str list list \<Rightarrow> server \<Rightarrow> outcome" where
  "motd_blocks cd u tot i [] s = (None, s)"
| "motd_blocks cd u tot i (block # rest) s =
     then_do
       (User_send cd u IsDCPServer (IsUser (uname u)) ''motd''
          [(''text'', block), (''multipart'', [''*'']), (''part'', [str_of_nat (i + 1)]),
           (''total'', [tot])] s)
       (motd_blocks cd u tot (i + 1) rest)"

definition cmd_motd :: "codec \<Rightarrow> user \<Rightarrow> frame \<Rightarrow> server \<Rightarrow> outcome" where
  "cmd_motd cd u line s =
     (if motd s = [] then User_send cd u IsDCPServer (IsUser (uname u)) ''motd'' [] s
      else motd_blocks cd u (str_of_nat (length (motd s))) 0 (motd s) s)"

text \<open>
  \<open>cmd_whois\<close>. Line 324 rebinds \<open>user\<close> to the looked-up target, so everything after it
  reads the target. The \<open>groups\<close> value is a list of \<open>Group\<close> objects, not of strings; a
  frame that holds one cannot be measured or joined, and \<open>send\<close> raises \<open>TypeError\<close>.
\<close>

definition whois_groups :: "user \<Rightarrow> group list" where
  "whois_groups u =
     filter (\<lambda>g. \<not> (has_property g ''private'' \<and> \<not> has_acl u ''user:auspex'')) (ugroups u)"

definition cmd_whois :: "codec \<Rightarrow> user \<Rightarrow> frame \<Rightarrow> server \<Rightarrow> outcome" where
  "cmd_whois cd u line s =
     (if target line = ''*'' \<or> startswith (target line) ''='' \<or> startswith (target line) ''#''
      then DCPServer_error cd (ToUser u) (command line) ''No valid target'' (PyBool False) PyNone s
      else (case users s (target line) of
              None \<Rightarrow>
                DCPServer_error cd (ToUser u) (command line) ''No such user'' (PyBool False)
                  PyNone s
            | Some user \<Rightarrow>
                (let kv = [(''handle'', [uname user]), (''gecos'', [gecos user])];
                     kv = (if has_acl user ''user:auspex''
                           then kv_set kv ''acl'' (sort (acl user)) else kv)
                 in if ugroups user \<noteq> [] \<and> whois_groups user \<noteq> []
                    then (Some (TypeError ''Group in kval''), s)
                    else User_send cd user IsDCPServer (IsUser (uname user)) ''whois''
                           (if ugroups user \<noteq> [] then kv_set kv ''groups'' [] else kv) s)))"

text \<open>\<open>cmd_pong\<close> clears the flag.\<close>

definition cmd_pong :: "codec \<Rightarrow> user \<Rightarrow> frame \<Rightarrow> server \<Rightarrow> outcome" where
  "cmd_pong cd u line s = (None, set_user (u\<lparr>timeout := False\<rparr>) s)"

text \<open>
  \<open>random.randint(a, b)\<close>, a library function: an integer from \<open>a\<close> to \<open>b\<close>, both included,
  each as likely as any other. A random result is kept as the list of the values it can
  take, each with its probability.
\<close>

type_synonym 'a weighted = "('a \<times> real) list"

definition randint :: "nat \<Rightarrow> nat \<Rightarrow> nat weighted" where
  "randint a b = map (\<lambda>n. (n, 1 / real (b + 1 - a))) [a..<b + 1]"

text \<open>
  \<open>ping_timeout\<close>. The clock is an input: \<open>now\<close> is \<open>round(time.time())\<close>. Line 406 draws
  \<open>randint(4500, 6000)\<close> and divides it by 100 for the delay in seconds; the timer keeps the
  delay in hundredths of a second, the number drawn. Nothing is drawn when the flag is
  set, or when \<open>send\<close> raises.
\<close>

definition ping_timeout :: "codec \<Rightarrow> int \<Rightarrow> user \<Rightarrow> server \<Rightarrow> outcome weighted" where
  "ping_timeout cd now u s =
     (if timeout u
      then [(DCPServer_error cd (ToUser u) ''ping'' ''Ping timeout'' (PyBool True) PyNone s, 1)]
      else (case User_send cd u IsDCPServer (IsUser (uname u)) ''ping''
                   [(''time'', [str_of_int now])] s of
              (Some e, s') \<Rightarrow> [((Some e, s'), 1)]
            | (None, s') \<Rightarrow>
                map (\<lambda>(sched, p).
                       ((None,
                         upd_proto (uproto u)
                           (\<lambda>q. q\<lparr>callbacks := (callbacks q)(''ping'' \<mapsto> sched)\<rparr>)
                           (set_user (u\<lparr>timeout := True\<rparr>) s')),
                        p))
                    (randint 4500 6000)))"

text \<open>
  \<open>user_enter\<close>. Line 146 calls \<open>self.cmd_motd(user, line)\<close>, and \<open>line\<close> is neither a
  parameter nor a local nor a global of the module: evaluating the arguments raises
  \<open>NameError\<close>, before \<open>cmd_motd\<close> is entered and before lines 149 and 150 are reached.
\<close>

definition user_enter ::
  "codec \<Rightarrow> int \<Rightarrow> nat \<Rightarrow> str \<Rightarrow> str \<Rightarrow> str list \<Rightarrow> str list \<Rightarrow> str list \<Rightarrow> server \<Rightarrow> outcome" where
  "user_enter cd now c name gecos' acls props opts s =
     (let user = new_user c name gecos' acls props opts;
          s1 = upd_proto c (\<lambda>p. p\<lparr>puser := Some user\<rparr>) (s\<lparr>users := (users s)(name \<mapsto> user)\<rparr>)
      in if ''signon'' \<notin> dom (callbacks (protos s1 c)) then (Some (KeyError ''signon''), s1)
         else then_do
                (User_send cd user IsDCPServer (IsUser (uname user)) ''signon''
                   [(''name'', [sname s]), (''time'', [str_of_int now]),
                    (''version'', [''Minnow prototype server'', ''v0.1-prealpha'']),
                    (''options'', [])]
                   (upd_proto c (\<lambda>p. p\<lparr>callbacks := (callbacks p)(''signon'' := None)\<rparr>) s1))
                (\<lambda>s2. (Some (NameError ''line''), s2)))"

subsection \<open>\<open>DCPServer.process\<close>\<close>

text \<open>
  The registration a handler asks for in its return annotation, and a handler: it is
  called with the connection (\<open>UNREG\<close>) or the user (\<open>SIGNON\<close>) and the frame. The table
  of handlers stands for \<open>getattr(self, 'cmd_' + command, None)\<close> and is a parameter.
\<close>

datatype req = UNREG | SIGNON

type_synonym handler = "dest \<Rightarrow> frame \<Rightarrow> server \<Rightarrow> outcome"

text \<open>
  The body of the loop of \<open>process\<close> (lines 95 to 127), for the frames that remain. A
  missing handler or a wrong registration state sends a non-fatal error and returns
  from \<open>process\<close>. A \<open>UserError\<close> or \<open>GroupError\<close> of the handler reaches
  \<open>traceback.print_exception\<close>, and \<open>traceback\<close> is not imported: \<open>NameError\<close>. Any other
  exception is answered with a fatal error, and the loop goes on.
\<close>

definition internal_error :: str where
  "internal_error = ''Internal server error (this isn'' @ [CHR 0x27] @ ''t your fault)''"

fun is_domain_error :: "error \<Rightarrow> bool" where
  "is_domain_error (UserError m) = True"
| "is_domain_error (GroupError m) = True"
| "is_domain_error e = False"

definition call_handler ::
  "codec \<Rightarrow> handler \<Rightarrow> dest \<Rightarrow> frame \<Rightarrow> server \<Rightarrow> outcome" where
  "call_handler cd func d line s =
     (case func d line s of
        (None, s') \<Rightarrow> (None, s')
      | (Some e, s') \<Rightarrow>
          if is_domain_error e then (Some (NameError ''traceback''), s')
          else DCPServer_error cd d (command line) internal_error (PyBool True) PyNone s')"

fun process_lines ::
  "codec \<Rightarrow> (str \<Rightarrow> (req \<times> handler) option) \<Rightarrow> nat \<Rightarrow> frame list \<Rightarrow> server \<Rightarrow> outcome" where
  "process_lines cd table c [] s = (None, s)"
| "process_lines cd table c (line # rest) s =
     (case table (replace_hyphens (command line)) of
        None \<Rightarrow>
          DCPServer_error cd (ToProto c) (command line) ''No such command'' (PyBool False)
            PyNone s
      | Some (SIGNON, func) \<Rightarrow>
          (case puser (protos s c) of
             None \<Rightarrow>
               DCPServer_error cd (ToProto c) (command line) ''You are not registered''
                 (PyBool False) PyNone s
           | Some u \<Rightarrow>
               then_do (call_handler cd func (ToUser u) line s) (process_lines cd table c rest))
      | Some (UNREG, func) \<Rightarrow>
          (case puser (protos s c) of
             Some u \<Rightarrow>
               DCPServer_error cd (ToProto c) (command line)
                 ''This command is only usable before registration'' (PyBool False) PyNone s
           | None \<Rightarrow>
               then_do (call_handler cd func (ToProto c) line s)
                 (process_lines cd table c rest)))"

text \<open>
  \<open>iter(frame)\<close>, which the \<open>for\<close> statement of line 94 calls on what \<open>Frame.parse\<close>
  returns. \<open>Frame.parse\<close> returns one \<open>Frame\<close>, and the class defines \<open>__len__\<close> but neither
  \<open>__iter__\<close> nor \<open>__getitem__\<close>: the object is not iterable.
\<close>

definition iter_Frame :: "frame \<Rightarrow> error + frame list" where
  "iter_Frame f = Inl (TypeError ''Frame object is not iterable'')"

definition process ::
  "codec \<Rightarrow> (str \<Rightarrow> (req \<times> handler) option) \<Rightarrow> nat \<Rightarrow> bytes \<Rightarrow> server \<Rightarrow> outcome" where
  "process cd table c data s =
     (case parse cd data of
        Inl e \<Rightarrow> (Some e, s)
      | Inr f \<Rightarrow>
          (case iter_Frame f of
             Inl e \<Rightarrow> (Some e, s)
           | Inr lines \<Rightarrow> process_lines cd table c lines s))"

subsection \<open>\<open>DCPProto.data_received\<close>\<close>

text \<open>
  Lines 469 to 475. The handler of \<open>ParserError\<close> calls
  \<open>self.error('*', 'Parser failure', {'reason': [str(e)]}, False)\<close>; the parameters of
  \<open>error\<close> are \<open>command, reason, fatal, extargs\<close>, so the dictionary is \<open>fatal\<close> and \<open>False\<close>
  is \<open>extargs\<close>.
\<close>

definition internal_error_proto :: str where
  "internal_error_proto = ''Internal server error (This isn'' @ [CHR 0x27] @ ''t your fault)''"

definition process_guarded ::
  "codec \<Rightarrow> (str \<Rightarrow> (req \<times> handler) option) \<Rightarrow> nat \<Rightarrow> bytes \<Rightarrow> server \<Rightarrow> outcome" where
  "process_guarded cd table c data s =
     (case process cd table c data s of
        (None, s') \<Rightarrow> (None, s')
      | (Some e, s') \<Rightarrow>
          if is_ParserError e
          then DCPProto_error cd c ''*'' ''Parser failure''
                 (PyDict [(''reason'', [str_of_error e])]) (PyBool False) s'
          else DCPProto_error cd c ''*'' internal_error_proto (PyBool True) PyNone s')"

definition data_received ::
  "codec \<Rightarrow> (str \<Rightarrow> (req \<times> handler) option) \<Rightarrow> nat \<Rightarrow> bytes \<Rightarrow> server \<Rightarrow> outcome" where
  "data_received cd table c data s =
     (let data = buf (protos s c) @ data
      in if \<not> endswith data [NUL, NUL]
         then (case rpartition [NUL, NUL] data of
                 (d, sep, b) \<Rightarrow>
                   (let s1 = upd_proto c (\<lambda>p. p\<lparr>buf := b\<rparr>) s
                    in if sep \<noteq> [] then process_guarded cd table c (d @ sep) s1
                       else (None, upd_proto c (\<lambda>p. p\<lparr>buf := d\<rparr>) s1)))
         else process_guarded cd table c data s)"

subsection \<open>A server and its connections\<close>

text \<open>
  \<open>DCPProto.__init__\<close> and \<open>connection_made\<close>: an empty buffer, no user, and the signon
  timer of 60 seconds.
\<close>

definition new_proto :: dcpproto where
  "new_proto = \<lparr>buf = [], puser = None, callbacks = Map.empty, written = [], closed = False\<rparr>"

definition connection_made :: "nat \<Rightarrow> server \<Rightarrow> server" where
  "connection_made c s =
     upd_proto c (\<lambda>p. p\<lparr>callbacks := (callbacks p)(''signon'' \<mapsto> 6000)\<rparr>) s"

text \<open>The server of config.py, with no MOTD file, and one connection made.\<close>

definition server0 :: server where
  "server0 = \<lparr>sname = ''elizabethmyers.me.uk'', servpass = None, users = Map.empty,
              groups = Map.empty, motd = [], protos = (\<lambda>c. new_proto)\<rparr>"

definition connected :: server where
  "connected = connection_made 0 server0"

text \<open>
  A table with the handlers modelled above, all of them for signed-on users, under the
  names \<open>getattr\<close> finds them by.
\<close>

definition user_handler :: "(user \<Rightarrow> frame \<Rightarrow> server \<Rightarrow> outcome) \<Rightarrow> handler" where
  "user_handler func d line s =
     (case d of ToUser u \<Rightarrow> func u line s | ToProto c \<Rightarrow> (Some (AttributeError ''proto''), s))"

definition modelled_handlers :: "codec \<Rightarrow> str \<Rightarrow> (req \<times> handler) option" where
  "modelled_handlers cd cmd =
     (if cmd = ''motd'' then Some (SIGNON, user_handler (cmd_motd cd))
      else if cmd = ''whois'' then Some (SIGNON, user_handler (cmd_whois cd))
      else if cmd = ''pong'' then Some (SIGNON, user_handler (cmd_pong cd))
      else None)"

text \<open>A complete \<open>pong\<close> frame of 13 bytes, as a client sends it.\<close>

definition pong_input :: bytes where
  "pong_input = [NUL, CHR 0x0D, NUL] @ ''*'' @ [NUL] @ ''*'' @ [NUL] @ ''pong'' @ [NUL, NUL]"

text \<open>The error frame of a connection with no user, before it is encoded.\<close>

definition error_frame :: "server \<Rightarrow> nat \<Rightarrow> str \<Rightarrow> str \<Rightarrow> frame" where
  "error_frame s c cmd reason =
     \<lparr>source = ''='' @ sname s,
      target = (case puser (protos s c) of None \<Rightarrow> ''*'' | Some u \<Rightarrow> uname u),
      command = ''error'',
      kval = [(''command'', [cmd]), (''reason'', [reason])]\<rparr>"

text \<open>Two users signed on, on connections 2 and 3; only \<open>alice\<close> holds \<open>user:auspex\<close>.\<close>

definition alice :: user where
  "alice = \<lparr>uname = ''alice'', gecos = ''Alice'', acl = [''user:auspex''], properties = [],
            options = [], uproto = 2, ugroups = [], timeout = False\<rparr>"

definition bob :: user where
  "bob = \<lparr>uname = ''bob'', gecos = ''Bob'', acl = [], properties = [],
          options = [], uproto = 3, ugroups = [], timeout = False\<rparr>"

definition two_users :: server where
  "two_users =
     server0\<lparr>users := [''alice'' \<mapsto> alice, ''bob'' \<mapsto> bob],
             protos := (\<lambda>c. if c = 2 then new_proto\<lparr>puser := Some alice\<rparr>
                            else if c = 3 then new_proto\<lparr>puser := Some bob\<rparr>
                            else new_proto)\<rparr>"

text \<open>The frame \<open>alice\<close> sends to look \<open>bob\<close> up.\<close>

definition whois_bob :: frame where
  "whois_bob = \<lparr>source = ''alice'', target = ''bob'', command = ''whois'', kval = []\<rparr>"

subsection \<open>The frames the server sends\<close>

text \<open>
  The frames built by \<open>user_enter\<close> (lines 137 to 143), \<open>cmd_whois\<close> (lines 326 to 341, for
  a target in no group) and \<open>ping_timeout\<close> (line 401), before they are encoded.
\<close>

definition signon_frame :: "server \<Rightarrow> str \<Rightarrow> int \<Rightarrow> frame" where
  "signon_frame s name now =
     \<lparr>source = ''='' @ sname s, target = name, command = ''signon'',
      kval = [(''name'', [sname s]), (''time'', [str_of_int now]),
              (''version'', [''Minnow prototype server'', ''v0.1-prealpha'']),
              (''options'', [])]\<rparr>"

definition whois_frame :: "server \<Rightarrow> user \<Rightarrow> frame" where
  "whois_frame s t =
     \<lparr>source = ''='' @ sname s, target = uname t, command = ''whois'',
      kval = [(''handle'', [uname t]), (''gecos'', [gecos t])]
             @ (if has_acl t ''user:auspex'' then [(''acl'', sort (acl t))] else [])\<rparr>"

definition ping_frame :: "server \<Rightarrow> user \<Rightarrow> int \<Rightarrow> frame" where
  "ping_frame s u now =
     \<lparr>source = ''='' @ sname s, target = uname u, command = ''ping'',
      kval = [(''time'', [str_of_int now])]\<rparr>"

text \<open>Two complete \<open>pong\<close> frames back to back, as one read can deliver them.\<close>

definition two_pongs :: bytes where
  "two_pongs = pong_input @ pong_input"

section \<open>Properties of the frame codec\<close>

subsection \<open>The key/value dictionary\<close>

lemma kv_get_kv_append:
  "kv_get (kv_append kv k v) k' = (if k' = k then kv_get kv k @ [v] else kv_get kv k')"
  by (induction kv k v rule: kv_append.induct) (auto simp: kv_get_def)

lemma entries_kv_append: "entries (kv_append kv k v) = insert (k, v) (entries kv)"
  by (auto simp: entries_def kv_get_kv_append split: if_splits)

lemma entries_Nil: "entries [] = {}"
  by (simp add: entries_def kv_get_def)

lemma fill_kval_Inl:
  "fill_kval cd ps kv = Inl e \<Longrightarrow> e = ParserValueError ''Duplicate value not allowed''"
  by (induction cd ps kv rule: fill_kval.induct) (auto simp: Let_def split: if_splits)

text \<open>
  The loop succeeds exactly when no decoded pair repeats and none is in the dictionary
  already.
\<close>

lemma fill_kval_ok_iff:
  "(\<exists>kv'. fill_kval cd ps kv = Inr kv') \<longleftrightarrow>
     distinct (map (decode_pair cd) ps) \<and> set (map (decode_pair cd) ps) \<inter> entries kv = {}"
proof (induction cd ps kv rule: fill_kval.induct)
  case (1 cd kv)
  show ?case by simp
next
  case (2 cd p rest kv)
  show ?case
  proof (cases "snd (decode_pair cd p) \<in> set (kv_get kv (fst (decode_pair cd p)))")
    case True
    then have "decode_pair cd p \<in> entries kv" by (simp add: entries_def case_prod_beta)
    with True show ?thesis by (auto simp: Let_def)
  next
    case False
    then have notin: "decode_pair cd p \<notin> entries kv"
      by (simp add: entries_def case_prod_beta)
    from False 2 have "(\<exists>kv'. fill_kval cd (p # rest) kv = Inr kv') \<longleftrightarrow>
       distinct (map (decode_pair cd) rest) \<and>
       set (map (decode_pair cd) rest)
         \<inter> entries (kv_append kv (fst (decode_pair cd p)) (snd (decode_pair cd p))) = {}"
      by (simp add: Let_def)
    with notin show ?thesis by (auto simp: entries_kv_append)
  qed
qed

lemma fill_kval_empty_cases:
  "fill_kval cd ps [] =
     (if distinct (map (decode_pair cd) ps)
      then Inr (projr (fill_kval cd ps []))
      else Inl (ParserValueError ''Duplicate value not allowed''))"
proof (cases "fill_kval cd ps []")
  case (Inl e)
  with fill_kval_ok_iff[of cd ps "[]"] fill_kval_Inl[of cd ps "[]" e] show ?thesis
    by (auto simp: entries_Nil)
next
  case (Inr kv)
  with fill_kval_ok_iff[of cd ps "[]"] show ?thesis by (auto simp: entries_Nil)
qed

text \<open>The value of the last pair ends up last in the list of its key.\<close>

lemma fill_kval_last:
  "fill_kval cd ps kv = Inr kv' \<Longrightarrow> ps \<noteq> [] \<Longrightarrow>
     kv_get kv' (fst (decode_pair cd (last ps))) \<noteq> [] \<and>
     last (kv_get kv' (fst (decode_pair cd (last ps)))) = snd (decode_pair cd (last ps))"
proof (induction cd ps kv rule: fill_kval.induct)
  case (1 cd kv)
  then show ?case by simp
next
  case (2 cd p rest kv)
  show ?case
  proof (cases "rest = []")
    case True
    with 2 show ?thesis by (auto simp: Let_def kv_get_kv_append split: if_splits)
  next
    case False
    with 2 show ?thesis by (auto simp: Let_def split: if_splits)
  qed
qed

subsection \<open>Tokens and pairs\<close>

lemma pairs_snoc_odd:
  "odd (length xs) \<Longrightarrow> pairs (xs @ [a]) = pairs (butlast xs) @ [(last xs, a)]"
proof (induction xs rule: pairs.induct)
  case (1 k v rest)
  then show ?case by (cases rest) auto
qed simp_all

lemma bytes_split_nonempty: "bytes_split sep xs \<noteq> []"
  by (induction xs) (auto split: list.splits)

lemma bytes_split_append_nosep:
  "sep \<notin> set xs \<Longrightarrow>
   bytes_split sep (xs @ ys) = (xs @ hd (bytes_split sep ys)) # tl (bytes_split sep ys)"
proof (induction xs)
  case Nil
  then show ?case by (simp add: bytes_split_nonempty)
next
  case (Cons x xs)
  then have "x \<noteq> sep" by auto
  with Cons show ?case by simp
qed

lemma endswith_append: "endswith (xs @ suf) suf"
  by (simp add: endswith_def)

lemma kv_pairs_nonempty_length: "kv_pairs text \<noteq> [] \<Longrightarrow> 3 < length (tokenise text)"
  by (auto simp: kv_pairs_def kv_tokens_def split: if_splits)

lemma bytes_split_fields:
  "\<forall>t\<in>set toks. sep \<notin> set t \<Longrightarrow>
   bytes_split sep (concat (map (\<lambda>t. t @ [sep]) toks) @ [sep]) = toks @ [[], []]"
proof (induction toks)
  case Nil
  show ?case by simp
next
  case (Cons t ts)
  then have t: "sep \<notin> set t" and ih: "bytes_split sep (concat (map (\<lambda>t. t @ [sep]) ts) @ [sep])
      = ts @ [[], []]" by simp_all
  have "bytes_split sep (t @ sep # concat (map (\<lambda>t. t @ [sep]) ts) @ [sep])
      = (t @ hd (bytes_split sep (sep # concat (map (\<lambda>t. t @ [sep]) ts) @ [sep])))
        # tl (bytes_split sep (sep # concat (map (\<lambda>t. t @ [sep]) ts) @ [sep]))"
    using t by (rule bytes_split_append_nosep)
  with ih show ?case by simp
qed

lemma tokenise_fields:
  assumes "length hdr = 3" and "\<forall>t\<in>set toks. NUL \<notin> set t"
  shows "tokenise (hdr @ concat (map (\<lambda>t. t @ [NUL]) toks) @ [NUL]) = toks @ ['''']"
  using assms by (simp add: tokenise_def bytes_split_fields butlast_append)

lemma parse_size_error_iff:
  "parse cd text = Inl (ParserSizeError m) \<longleftrightarrow>
     endswith text terminator \<and> 10 \<le> length text \<and> MAXFRAME < from_bytes_big (take 2 text)
     \<and> m = ''Frame is too large for the wire''"
  by (auto simp: parse_def Let_def split: if_splits sum.splits dest: fill_kval_Inl)

subsection \<open>The concrete inputs\<close>

lemma tokenise_long_input:
  "tokenise long_input = [''a'', ''b'', ''c'', replicate 1392 (CHR ''x''), '''']"
  by (simp add: long_input_def tokenise_def bytes_split_append_nosep)

lemma endswith_long_input: "endswith long_input terminator"
  unfolding long_input_def terminator_def
  using endswith_append[of "[NUL, CHR 0x0A, NUL] @ ''a'' @ [NUL] @ ''b'' @ [NUL] @ ''c'' @ [NUL]
     @ replicate 1392 (CHR ''x'')" "[NUL, NUL]"] by simp

lemma tokenise_dup_input:
  "tokenise dup_input = [''a'', ''b'', ''c'', ''k'', ''v'', ''K'', ''v'', '''']"
  by (simp add: dup_input_def tokenise_def)

lemma tokenise_message_frame_bytes:
  "tokenise message_frame_bytes = [''alice'', ''bob'', ''message'', ''body'', ''hi'', '''']"
  by (simp add: message_frame_bytes_def tokenise_def)

lemma Frame_bytes_message_frame:
  "Frame_bytes ascii_codec message_frame = Inr message_frame_bytes"
proof -
  have g: "generic_len (source message_frame) (target message_frame)
             (command message_frame) (kval message_frame) = 30"
    by (simp add: message_frame_def generic_len_def len_kv_def)
  have j: "join [NUL] (frame_items message_frame) =
      ''alice'' @ [NUL] @ ''bob'' @ [NUL] @ ''message'' @ [NUL] @ ''body'' @ [NUL] @ ''hi''
      @ [NUL, NUL]"
    by (simp add: message_frame_def frame_items_def)
  have t: "to_bytes2 30 = Inr [NUL, CHR 0x1E]"
    by (simp add: to_bytes2_def char_of_def bit_0)
  show ?thesis
    by (simp add: Frame_bytes_def g j t MAXFRAME_def ascii_codec_def ascii_only_def
        message_frame_bytes_def)
qed

subsection \<open>Counting tokens and values\<close>

lemma num_values_kv_append: "num_values (kv_append kv k v) = Suc (num_values kv)"
  by (induction kv k v rule: kv_append.induct) (auto simp: num_values_def)

lemma num_values_fill_kval:
  "fill_kval cd ps kv = Inr kv' \<Longrightarrow> num_values kv' = num_values kv + length ps"
  by (induction cd ps kv rule: fill_kval.induct)
     (auto simp: Let_def num_values_kv_append split: if_splits)

lemma length_pairs: "length (pairs xs) = length xs div 2"
  by (induction xs rule: pairs.induct) auto

lemma length_bytes_split: "length (bytes_split sep xs) = Suc (count_list xs sep)"
  by (induction xs) (auto split: list.splits)

lemma last_bytes_split_append: "last (bytes_split sep (xs @ [sep])) = []"
proof (induction xs)
  case Nil
  show ?case by simp
next
  case (Cons a xs)
  have "length (bytes_split sep (xs @ [sep])) \<ge> 2" by (simp add: length_bytes_split)
  then obtain t u ts where "bytes_split sep (xs @ [sep]) = t # u # ts"
    by (cases "bytes_split sep (xs @ [sep])"; cases "tl (bytes_split sep (xs @ [sep]))") auto
  with Cons show ?case by auto
qed

lemma count_list_join:
  "items \<noteq> [] \<Longrightarrow>
   count_list (join [sep] items) sep = length items - 1 + (\<Sum>x \<leftarrow> items. count_list x sep)"
  by (induction "[sep]" items rule: join.induct) auto

lemma length_frame_items: "length (frame_items f) = 4 + 2 * num_values (kval f)"
proof -
  have "length (concat (map (\<lambda>(k, v). concat (map (\<lambda>v2. [k, v2]) v)) kv)) = 2 * num_values kv"
    for kv :: kval
  proof (induction kv)
    case Nil
    show ?case by (simp add: num_values_def)
  next
    case (Cons p kv)
    have "length (concat (map (\<lambda>v2. [k, v2]) v)) = 2 * length v" for k :: str and v :: "str list"
      by (induction v) auto
    with Cons show ?case by (cases p) (simp add: num_values_def)
  qed
  then show ?thesis by (simp add: frame_items_def)
qed

lemma count_encode:
  assumes "encodes_per_character cd"
  shows "count_list s NUL \<le> count_list (utf8_encode cd s) NUL"
proof (induction s)
  case Nil
  show ?case by simp
next
  case (Cons x s)
  from assms have "utf8_encode cd (x # s) = utf8_encode cd [x] @ utf8_encode cd s"
    using encodes_per_character_def[of cd] by (metis append_Cons append_Nil)
  moreover from assms have "x = NUL \<Longrightarrow> utf8_encode cd [x] = [NUL]"
    by (simp add: encodes_per_character_def)
  ultimately show ?case using Cons by (cases "x = NUL") auto
qed

lemma join_frame_items_ends:
  "\<exists>pre. join [NUL] (frame_items f) = pre @ [NUL, NUL]"
proof -
  have "\<exists>pre. join [NUL] (x # xs @ [[NUL]]) = pre @ [NUL, NUL]" for x :: str and xs
  proof (induction xs arbitrary: x)
    case Nil
    show ?case by simp
  next
    case (Cons y ys)
    from Cons[of y] obtain pre where "join [NUL] (y # ys @ [[NUL]]) = pre @ [NUL, NUL]" by blast
    then show ?case by simp
  qed
  from this[of "source f" "[target f, command f]
     @ concat (map (\<lambda>(k, v). concat (map (\<lambda>v2. [k, v2]) v)) (kval f))"]
  show ?thesis by (simp add: frame_items_def)
qed

subsection \<open>Round trip\<close>

text \<open>
  C5. The claim: for every frame whose binary encoding is at most 1400 bytes, decoding
  the encoding gives the frame back. In the code no frame comes back. Every encoding
  ends in the double null; \<open>parse\<close> splits at every null, which leaves two empty tokens at
  the end, and deletes one of them. With the other, the tokens after the command are
  more than twice the values of the frame, so the decoded dictionary holds at least one
  value more than the frame's.
\<close>

theorem no_frame_round_trips:
  assumes enc: "encodes_per_character cd" and b: "Frame_bytes cd f = Inr b"
  shows "parse cd b \<noteq> Inr f"
proof
  assume p: "parse cd b = Inr f"
  let ?s = "join [NUL] (frame_items f)"
  let ?n = "num_values (kval f)"
  from b obtain llen where bb: "b = llen @ [NUL] @ utf8_encode cd ?s" and ll: "length llen = 2"
    by (auto simp: Frame_bytes_def Let_def to_bytes2_def split: if_splits)
  from join_frame_items_ends obtain pre where pre: "?s = pre @ [NUL, NUL]" by blast
  from enc have es: "utf8_encode cd ?s = (utf8_encode cd pre @ [NUL]) @ [NUL]"
    by (simp add: pre encodes_per_character_def)
       (metis append_Cons append_Nil)
  have d3: "drop 3 b = utf8_encode cd ?s" by (simp add: bb ll)
  have "last (bytes_split NUL (drop 3 b)) = []"
    unfolding d3 es by (rule last_bytes_split_append)
  then have tk: "tokenise b = butlast (bytes_split NUL (utf8_encode cd ?s))"
    by (simp add: tokenise_def d3)
  have "frame_items f \<noteq> []" by (simp add: frame_items_def)
  then have "count_list ?s NUL \<ge> length (frame_items f) - 1 + 1"
    by (simp add: count_list_join frame_items_def)
  then have "count_list ?s NUL \<ge> 4 + 2 * ?n" by (simp add: length_frame_items)
  with count_encode[OF enc, of ?s] have c: "4 + 2 * ?n \<le> count_list (utf8_encode cd ?s) NUL"
    by simp
  then have lt: "4 + 2 * ?n \<le> length (tokenise b)"
    by (simp add: tk length_bytes_split)
  from p obtain kv where fk: "fill_kval cd (pairs (kv_tokens (tokenise b))) [] = Inr kv"
    and kf: "kval f = kv"
    by (auto simp: parse_def Let_def split: if_splits sum.splits)
  from num_values_fill_kval[OF fk] have nv: "num_values kv = length (kv_tokens (tokenise b)) div 2"
    by (simp add: length_pairs num_values_def)
  from lt have r: "2 * ?n + 1 \<le> length (tokenise b) - 3" by simp
  from lt have kl: "length (kv_tokens (tokenise b)) =
      (if odd (length (tokenise b) - 3) then Suc (length (tokenise b) - 3)
       else length (tokenise b) - 3)"
    by (auto simp: kv_tokens_def odd_iff_mod_2_eq_one)
  have ar: "m < (if odd k then Suc k else k) div 2" if "2 * m + 1 \<le> k" for m k :: nat
    using that by presburger
  from ar[OF r] have "?n < length (kv_tokens (tokenise b)) div 2"
    by (simp only: kl)
  with nv kf show False by simp
qed

text \<open>
  The frame \<open>alice \<rightarrow> bob: message, body = hi\<close> encodes to 30 bytes; the empty token that
  is left is padded with \<open>*\<close> and comes back as a key the frame never had.
\<close>

theorem no_frame_round_trips_witness:
  "Frame_bytes ascii_codec message_frame = Inr message_frame_bytes
   \<and> parse ascii_codec message_frame_bytes =
       Inr (message_frame\<lparr>kval := [(''body'', [''hi'']), ('''', [''*''])]\<rparr>)
   \<and> parse ascii_codec message_frame_bytes \<noteq> Inr message_frame"
proof -
  have a: "endswith message_frame_bytes terminator"
    by (simp add: message_frame_bytes_def endswith_def terminator_def)
  have b: "length message_frame_bytes = 30" by (simp add: message_frame_bytes_def)
  have c: "from_bytes_big (take 2 message_frame_bytes) = 30"
    by (simp add: message_frame_bytes_def from_bytes_big_def)
  have p: "parse ascii_codec message_frame_bytes =
       Inr (message_frame\<lparr>kval := [(''body'', [''hi'']), ('''', [''*''])]\<rparr>)"
    by (simp add: parse_def a b c tokenise_message_frame_bytes kv_tokens_def decode_pair_def
        ascii_codec_def ascii_only_def ascii_lower_char_def kv_get_def MAXFRAME_def
        message_frame_def)
  have e: "encodes_per_character ascii_codec"
    by (simp add: encodes_per_character_def ascii_codec_def ascii_only_def)
  from no_frame_round_trips[OF e Frame_bytes_message_frame] Frame_bytes_message_frame p
  show ?thesis by (intro conjI)
qed

subsection \<open>Oversize input\<close>

text \<open>
  C6. The claim: every byte string longer than 1400 bytes that ends with the terminator
  of the dialect decodes to the size error. The JSON decoder measures the input, and
  does so. The binary decoder compares only the length that the first two bytes declare,
  and never the input with it: it gives the size error exactly when an input of at least
  ten bytes that ends in the double null declares more than 1400, whatever its real
  length is.
\<close>

theorem size_error_follows_declared_length:
  "(parse cd text = Inl (ParserSizeError m) \<longleftrightarrow>
      endswith text terminator \<and> 10 \<le> length text \<and> MAXFRAME < from_bytes_big (take 2 text)
      \<and> m = ''Frame is too large for the wire'')
   \<and> (endswith text JSON_terminator \<and> MAXFRAME < length text
      \<longrightarrow> JSONFrame_parse cd loads text = Inl (ParserSizeError ''Frame is too large''))"
  using parse_size_error_iff[of cd "text" m]
  by (simp add: JSONFrame_parse_def MAXFRAME_def)

text \<open>
  \<open>long_input\<close> has 1403 bytes, ends in the double null and declares ten bytes. The binary
  decoder returns a frame for it, with a key of 1392 bytes; the JSON decoder, given the
  same bytes, gives the size error.
\<close>

theorem size_error_follows_declared_length_witness:
  "MAXFRAME < length long_input \<and> endswith long_input terminator
   \<and> from_bytes_big (take 2 long_input) = 10
   \<and> parse ascii_codec long_input =
       Inr \<lparr>source = ''a'', target = ''b'', command = ''c'',
            kval = [(replicate 1392 (CHR ''x''), [''''])]\<rparr>
   \<and> JSONFrame_parse ascii_codec loads_no_value long_input
       = Inl (ParserSizeError ''Frame is too large'')"
proof -
  have len: "length long_input = 1403" by (simp add: long_input_def)
  have fb: "from_bytes_big (take 2 long_input) = 10"
    by (simp add: long_input_def from_bytes_big_def)
  have p: "parse ascii_codec long_input =
       Inr \<lparr>source = ''a'', target = ''b'', command = ''c'',
            kval = [(replicate 1392 (CHR ''x''), [''''])]\<rparr>"
    by (simp add: parse_def endswith_long_input len fb tokenise_long_input MAXFRAME_def
        kv_tokens_def decode_pair_def ascii_codec_def ascii_only_def ascii_lower_char_def
        kv_get_def)
  have j: "endswith long_input JSON_terminator"
    unfolding long_input_def JSON_terminator_def
    using endswith_append[of "[NUL, CHR 0x0A, NUL] @ ''a'' @ [NUL] @ ''b'' @ [NUL] @ ''c'' @ [NUL]
     @ replicate 1392 (CHR ''x'') @ [NUL]" "[NUL]"] by simp
  have big: "MAXFRAME < length long_input" by (simp add: len MAXFRAME_def)
  from size_error_follows_declared_length[of ascii_codec long_input _ loads_no_value] j big
  have "JSONFrame_parse ascii_codec loads_no_value long_input
       = Inl (ParserSizeError ''Frame is too large'')" by blast
  with big endswith_long_input fb p show ?thesis by (intro conjI)
qed

subsection \<open>Duplicate values\<close>

text \<open>
  C7. Whenever two pairs of the key/value section of a binary input have the same key
  after decoding and lowercasing and the same value after decoding, \<open>parse\<close> returns no
  frame but a parser error; and when the input passes the checks that come before the
  key/value loop (terminator, ten bytes, declared length), the error is the
  duplicate-value error.
\<close>

theorem duplicate_value_fails:
  assumes "i < j" and "j < length (kv_pairs text)"
    and "decode_pair cd (kv_pairs text ! i) = decode_pair cd (kv_pairs text ! j)"
  shows "(\<exists>e. parse cd text = Inl e \<and> is_ParserError e)
    \<and> (endswith text terminator \<and> 10 \<le> length text \<and> from_bytes_big (take 2 text) \<le> MAXFRAME
        \<longrightarrow> parse cd text = Inl (ParserValueError ''Duplicate value not allowed''))"
proof -
  have nd: "\<not> distinct (map (decode_pair cd) (kv_pairs text))"
  proof
    assume d: "distinct (map (decode_pair cd) (kv_pairs text))"
    from assms have li: "i < length (map (decode_pair cd) (kv_pairs text))"
      and lj: "j < length (map (decode_pair cd) (kv_pairs text))" by simp_all
    from nth_eq_iff_index_eq[OF d li lj] assms show False by simp
  qed
  from assms have "kv_pairs text \<noteq> []" by auto
  then have len: "3 < length (tokenise text)" by (rule kv_pairs_nonempty_length)
  from nd have f: "fill_kval cd (pairs (kv_tokens (tokenise text))) [] =
      Inl (ParserValueError ''Duplicate value not allowed'')"
    using fill_kval_empty_cases[of cd "kv_pairs text"] by (simp add: kv_pairs_def)
  show ?thesis using len f by (auto simp: parse_def Let_def)
qed

theorem duplicate_value_fails_witness:
  "parse ascii_codec dup_input = Inl (ParserValueError ''Duplicate value not allowed'')"
proof -
  have kp: "kv_pairs dup_input = [(''k'', ''v''), (''K'', ''v''), ('''', ''*'')]"
    by (simp add: kv_pairs_def tokenise_dup_input kv_tokens_def)
  have a: "(0::nat) < 1" by simp
  have b: "1 < length (kv_pairs dup_input)" by (simp add: kp)
  have c: "decode_pair ascii_codec (kv_pairs dup_input ! 0)
         = decode_pair ascii_codec (kv_pairs dup_input ! 1)"
    by (simp add: kp decode_pair_def ascii_codec_def ascii_only_def ascii_lower_char_def)
  have d: "endswith dup_input terminator \<and> 10 \<le> length dup_input
         \<and> from_bytes_big (take 2 dup_input) \<le> MAXFRAME"
    by (simp add: dup_input_def endswith_def terminator_def from_bytes_big_def MAXFRAME_def)
  from duplicate_value_fails[OF a b c] d show ?thesis by simp
qed

subsection \<open>Padding of an odd token\<close>

text \<open>
  C8. The claim: when the number of tokens after the command is odd, the parser appends
  exactly one \<open>*\<close>, so that the final key receives the value \<open>*\<close>. In the code the count
  is taken with the empty token that the terminator leaves (the slip of C5). Take any
  input laid out as three header bytes, fields without nulls, each followed by a null,
  and the closing null. The parser's tokens are the fields and one empty token. With an
  odd number of fields after the command, a key without its value, the parser counts an
  even number and appends nothing: the final key receives the empty string. With an even
  number, where nothing is missing, it appends \<open>*\<close>, under the empty key.
\<close>

theorem dangling_key_is_not_padded:
  assumes "length hdr = 3" and "\<forall>t\<in>set toks. NUL \<notin> set t"
    and "text = hdr @ concat (map (\<lambda>t. t @ [NUL]) toks) @ [NUL]"
    and "3 \<le> length toks"
  shows "tokenise text = toks @ ['''']
    \<and> (odd (length toks - 3) \<longrightarrow>
          kv_tokens (tokenise text) = drop 3 toks @ ['''']
          \<and> last (kv_pairs text) = (last toks, '''')
          \<and> (10 \<le> length text \<and> from_bytes_big (take 2 text) \<le> MAXFRAME
               \<and> distinct (map (decode_pair cd) (kv_pairs text))
              \<longrightarrow> (\<exists>f. parse cd text = Inr f
                     \<and> kv_get (kval f) (str_lower cd (utf8_decode cd (last toks))) \<noteq> []
                     \<and> last (kv_get (kval f) (str_lower cd (utf8_decode cd (last toks))))
                         = utf8_decode cd '''')))
    \<and> (even (length toks - 3) \<longrightarrow>
          kv_tokens (tokenise text) = drop 3 toks @ ['''', ''*'']
          \<and> last (kv_pairs text) = ('''', ''*''))"
proof -
  from assms have tk: "tokenise text = toks @ ['''']" by (simp add: tokenise_fields)
  have ew: "endswith text terminator"
  proof -
    from assms(4) obtain ts t where "toks = ts @ [t]"
      by (cases toks rule: rev_cases) auto
    then have "text = (hdr @ concat (map (\<lambda>t. t @ [NUL]) ts) @ t) @ [NUL, NUL]"
      using assms(3) by simp
    then show ?thesis unfolding terminator_def by (simp only: endswith_append)
  qed
  have odd_part: "kv_tokens (tokenise text) = drop 3 toks @ ['''']
          \<and> last (kv_pairs text) = (last toks, '''')
          \<and> (10 \<le> length text \<and> from_bytes_big (take 2 text) \<le> MAXFRAME
               \<and> distinct (map (decode_pair cd) (kv_pairs text))
              \<longrightarrow> (\<exists>f. parse cd text = Inr f
                     \<and> kv_get (kval f) (str_lower cd (utf8_decode cd (last toks))) \<noteq> []
                     \<and> last (kv_get (kval f) (str_lower cd (utf8_decode cd (last toks))))
                         = utf8_decode cd ''''))"
    if o: "odd (length toks - 3)"
  proof -
    from o have len: "3 < length toks" by (cases "length toks \<le> 3") auto
    from o len have "(Suc (length toks) - 3) mod 2 = 0" by presburger
    with len have kt: "kv_tokens (tokenise text) = drop 3 toks @ ['''']"
      by (simp add: tk kv_tokens_def)
    have pl: "pairs (xs @ [a]) = pairs (butlast xs) @ [(last xs, a)]" if "odd (length xs)"
      for xs :: "bytes list" and a using that by (rule pairs_snoc_odd)
    from o have "odd (length (drop 3 toks))" by simp
    then have kp: "kv_pairs text = pairs (butlast (drop 3 toks)) @ [(last (drop 3 toks), '''')]"
      by (simp add: kv_pairs_def kt pl)
    from len have "last (drop 3 toks) = last toks" by (simp add: last_drop)
    with kp have lastp: "last (kv_pairs text) = (last toks, '''')" by simp
    from kp have pne: "kv_pairs text \<noteq> []" by simp
    have "\<exists>f. parse cd text = Inr f
                     \<and> kv_get (kval f) (str_lower cd (utf8_decode cd (last toks))) \<noteq> []
                     \<and> last (kv_get (kval f) (str_lower cd (utf8_decode cd (last toks))))
                         = utf8_decode cd ''''"
      if fr: "10 \<le> length text" "from_bytes_big (take 2 text) \<le> MAXFRAME"
        and d: "distinct (map (decode_pair cd) (kv_pairs text))"
    proof -
      from d obtain kv where kv: "fill_kval cd (kv_pairs text) [] = Inr kv"
        using fill_kval_ok_iff[of cd "kv_pairs text" "[]"] by (auto simp: entries_Nil)
      from fill_kval_last[OF kv pne] lastp
      have "kv_get kv (str_lower cd (utf8_decode cd (last toks))) \<noteq> []
          \<and> last (kv_get kv (str_lower cd (utf8_decode cd (last toks)))) = utf8_decode cd ''''"
        by (simp add: decode_pair_def)
      moreover from kv ew fr len have "parse cd text =
         Inr \<lparr>source = str_lower cd (utf8_decode cd (tokenise text ! 0)),
              target = str_lower cd (utf8_decode cd (tokenise text ! 1)),
              command = str_lower cd (utf8_decode cd (tokenise text ! 2)), kval = kv\<rparr>"
        by (simp add: parse_def Let_def kv_pairs_def tk)
      ultimately show ?thesis by simp
    qed
    with kt lastp show ?thesis by blast
  qed
  have even_part: "kv_tokens (tokenise text) = drop 3 toks @ ['''', ''*'']
          \<and> last (kv_pairs text) = ('''', ''*'')"
    if e: "even (length toks - 3)"
  proof -
    from e assms(4) have "(Suc (length toks) - 3) mod 2 \<noteq> 0" by presburger
    with assms(4) have kt: "kv_tokens (tokenise text) = drop 3 toks @ ['''', ''*'']"
      by (simp add: tk kv_tokens_def)
    from e have "odd (length (drop 3 toks @ ['''']))" by simp
    from pairs_snoc_odd[OF this, of "''*''"]
    have "last (pairs ((drop 3 toks @ ['''']) @ [''*''])) = ('''', ''*'')" by simp
    with kt show ?thesis by (simp add: kv_pairs_def)
  qed
  from tk odd_part even_part show ?thesis by blast
qed

text \<open>
  \<open>dangling_input\<close> has the fields \<open>a\<close>, \<open>b\<close>, \<open>c\<close> and the key \<open>k\<close>: no \<open>*\<close> is appended, and \<open>k\<close>
  receives the empty string.
\<close>

theorem dangling_key_is_not_padded_witness:
  "dangling_input = [NUL, CHR 0x0C, NUL] @ concat (map (\<lambda>t. t @ [NUL]) [''a'', ''b'', ''c'', ''k'']) @ [NUL]
   \<and> kv_tokens (tokenise dangling_input) = [''k'', '''']
   \<and> parse ascii_codec dangling_input =
       Inr \<lparr>source = ''a'', target = ''b'', command = ''c'', kval = [(''k'', [''''])]\<rparr>"
proof -
  have a: "length [NUL, CHR 0x0C, NUL] = 3" by simp
  have b: "\<forall>t\<in>set [''a'', ''b'', ''c'', ''k'']. NUL \<notin> set t" by simp
  have c: "dangling_input = [NUL, CHR 0x0C, NUL]
      @ concat (map (\<lambda>t. t @ [NUL]) [''a'', ''b'', ''c'', ''k'']) @ [NUL]"
    by (simp add: dangling_input_def)
  have d: "3 \<le> length [''a'', ''b'', ''c'', ''k'']" by simp
  have o: "odd (length [''a'', ''b'', ''c'', ''k''] - 3)" by simp
  note th = dangling_key_is_not_padded[OF a b c d, of ascii_codec]
  from th have "tokenise dangling_input = [''a'', ''b'', ''c'', ''k''] @ ['''']" by blast
  then have tk: "tokenise dangling_input = [''a'', ''b'', ''c'', ''k'', '''']" by simp
  from th o have "kv_tokens (tokenise dangling_input)
      = drop 3 [''a'', ''b'', ''c'', ''k''] @ ['''']" by blast
  then have kt: "kv_tokens (tokenise dangling_input) = [''k'', '''']" by simp
  have e: "endswith dangling_input terminator"
    by (simp add: dangling_input_def endswith_def terminator_def)
  have l: "length dangling_input = 12" by (simp add: dangling_input_def)
  have f: "from_bytes_big (take 2 dangling_input) = 12"
    by (simp add: dangling_input_def from_bytes_big_def)
  have p: "parse ascii_codec dangling_input =
       Inr \<lparr>source = ''a'', target = ''b'', command = ''c'', kval = [(''k'', [''''])]\<rparr>"
    by (simp add: parse_def e l f tk kv_tokens_def decode_pair_def MAXFRAME_def Let_def
        ascii_codec_def ascii_only_def ascii_lower_char_def kv_get_def)
  from c kt p show ?thesis by (intro conjI)
qed

subsection \<open>JSON that does not load\<close>

text \<open>
  C10. For a byte string that ends with the null terminator of the JSON dialect and is
  between 20 and 1400 bytes long, if \<open>json.loads\<close> raises on its text then the JSON parser
  raises the size error, with the message of that exception, and not the invalid-frame
  error.
\<close>

theorem json_loads_failure_is_size_error:
  assumes "endswith text JSON_terminator" and "20 \<le> length text" and "length text \<le> MAXFRAME"
    and "loads (utf8_decode cd text) = Inl msg"
  shows "JSONFrame_parse cd loads text = Inl (ParserSizeError msg)"
  using assms by (simp add: JSONFrame_parse_def)

theorem json_loads_failure_is_size_error_witness:
  "begins_no_value (utf8_decode ascii_codec bad_json_input)
   \<and> JSONFrame_parse ascii_codec loads_no_value bad_json_input
     = Inl (ParserSizeError ''Expecting value: line 1 column 1 (char 0)'')"
proof -
  have a: "endswith bad_json_input JSON_terminator"
    unfolding bad_json_input_def JSON_terminator_def by (rule endswith_append)
  have b: "20 \<le> length bad_json_input" by (simp add: bad_json_input_def)
  have c: "length bad_json_input \<le> MAXFRAME" by (simp add: bad_json_input_def MAXFRAME_def)
  have d: "loads_no_value (utf8_decode ascii_codec bad_json_input)
      = Inl ''Expecting value: line 1 column 1 (char 0)''"
    by (simp add: loads_no_value_def)
  have e: "begins_no_value (utf8_decode ascii_codec bad_json_input)"
    by (simp add: begins_no_value_def bad_json_input_def ascii_codec_def ascii_only_def)
  from a b c d
    json_loads_failure_is_size_error[of bad_json_input loads_no_value ascii_codec
      "''Expecting value: line 1 column 1 (char 0)''"]
  have "JSONFrame_parse ascii_codec loads_no_value bad_json_input
     = Inl (ParserSizeError ''Expecting value: line 1 column 1 (char 0)'')" by simp
  with e show ?thesis by simp
qed

section \<open>Properties of the server\<close>

subsection \<open>State and sending\<close>

lemma process_raises: "\<exists>e. process cd table c data s = (Some e, s)"
  by (cases "parse cd data") (simp_all add: process_def iter_Frame_def)

lemma then_do_simps:
  "then_do (Some e, s) f = (Some e, s)" "then_do (None, s) f = f s"
  by (simp_all add: then_do_def)

lemma upd_proto_apply:
  "protos (upd_proto c f s) c' = (if c' = c then f (protos s c) else protos s c')"
  by (simp add: upd_proto_def)

lemma upd_proto_fields:
  "sname (upd_proto c f s) = sname s" "users (upd_proto c f s) = users s"
  "motd (upd_proto c f s) = motd s" "groups (upd_proto c f s) = groups s"
  by (simp_all add: upd_proto_def)

lemma upd_proto_upd_proto:
  "upd_proto c f (upd_proto c g s) = upd_proto c (\<lambda>p. f (g p)) s"
  by (simp add: upd_proto_def)

text \<open>What \<open>DCPProto.error\<close> does when it is given no extra arguments.\<close>

lemma DCPProto_error_no_extargs:
  "\<not> truthy extargs \<Longrightarrow>
   DCPProto_error cd c cmd reason fatal extargs s =
     (case Frame_bytes cd (error_frame s c cmd reason) of
        Inl e \<Rightarrow> (Some e, s)
      | Inr b \<Rightarrow>
          (None, upd_proto c (\<lambda>p. p\<lparr>written := written p @ [b],
                                  closed := (truthy fatal \<or> closed p)\<rparr>) s))"
  by (cases "puser (protos s c)"; cases "truthy fatal")
     (auto simp: DCPProto_error_def DCPProto_send_def error_frame_def user_party_def
        then_do_simps upd_proto_upd_proto upd_proto_def split: sum.splits)

text \<open>
  \<open>Frame.__bytes__\<close> succeeds when the frame passes the size check and its length fits
  two bytes.
\<close>

lemma Frame_bytes_Inr_projr:
  "generic_len (source f) (target f) (command f) (kval f) \<le> int MAXFRAME - 20 \<Longrightarrow>
   length (join [NUL] (frame_items f)) + 3 < 65536 \<Longrightarrow>
   Frame_bytes cd f = Inr (projr (Frame_bytes cd f))"
  by (simp add: Frame_bytes_def to_bytes2_def Let_def)

lemma connected_simps:
  "sname connected = ''elizabethmyers.me.uk''"
  "puser (protos connected c) = None"
  "written (protos connected c) = []"
  "closed (protos connected c) = False"
  "buf (protos connected c) = []"
  by (simp_all add: connected_def connection_made_def server0_def upd_proto_def new_proto_def)

lemma parser_error_frame_fits:
  "Frame_bytes ascii_codec (error_frame connected 0 ''*'' ''Parser failure'') =
   Inr (projr (Frame_bytes ascii_codec (error_frame connected 0 ''*'' ''Parser failure'')))"
  by (rule Frame_bytes_Inr_projr)
     (simp_all add: error_frame_def connected_simps generic_len_def len_kv_def MAXFRAME_def
        frame_items_def)

lemma internal_error_frame_fits:
  "Frame_bytes ascii_codec (error_frame connected 0 ''*'' internal_error_proto) =
   Inr (projr (Frame_bytes ascii_codec (error_frame connected 0 ''*'' internal_error_proto)))"
  by (rule Frame_bytes_Inr_projr)
     (simp_all add: error_frame_def connected_simps generic_len_def len_kv_def MAXFRAME_def
        frame_items_def internal_error_proto_def)

lemma parse_pong_input:
  "parse ascii_codec pong_input =
     Inr \<lparr>source = ''*'', target = ''*'', command = ''pong'', kval = [('''', [''*''])]\<rparr>"
proof -
  have tk: "tokenise pong_input = [''*'', ''*'', ''pong'', '''']"
    by (simp add: pong_input_def tokenise_def)
  have a: "endswith pong_input terminator"
    by (simp add: pong_input_def endswith_def terminator_def)
  have b: "length pong_input = 13" by (simp add: pong_input_def)
  have c: "from_bytes_big (take 2 pong_input) = 13"
    by (simp add: pong_input_def from_bytes_big_def)
  show ?thesis
    by (simp add: parse_def a b c tk kv_tokens_def decode_pair_def
        ascii_codec_def ascii_only_def ascii_lower_char_def kv_get_def MAXFRAME_def)
qed

lemma str_of_int_2014: "str_of_int 1414141414 = ''1414141414''"
  by (simp add: str_of_int_def str_of_nat.simps digit_char_def)

lemma connected_callbacks: "callbacks (protos connected 0) ''signon'' = Some 6000"
  by (simp add: connected_def connection_made_def server0_def upd_proto_def new_proto_def)

lemma signon_frame_fits:
  "Frame_bytes ascii_codec (signon_frame connected ''alice'' 1414141414) =
   Inr (projr (Frame_bytes ascii_codec (signon_frame connected ''alice'' 1414141414)))"
  by (rule Frame_bytes_Inr_projr)
     (simp_all add: signon_frame_def connected_simps generic_len_def len_kv_def MAXFRAME_def
        frame_items_def str_of_int_2014)

lemma two_users_simps:
  "sname two_users = ''elizabethmyers.me.uk''"
  "users two_users ''bob'' = Some bob"
  "users two_users ''alice'' = Some alice"
  "written (protos two_users c) = []"
  "closed (protos two_users c) = False"
  "puser (protos two_users 2) = Some alice"
  "puser (protos two_users 3) = Some bob"
  by (simp_all add: two_users_def server0_def new_proto_def)

lemma whois_frame_bob:
  "whois_frame two_users bob =
     \<lparr>source = ''=elizabethmyers.me.uk'', target = ''bob'', command = ''whois'',
      kval = [(''handle'', [''bob'']), (''gecos'', [''Bob''])]\<rparr>"
  by (simp add: whois_frame_def two_users_simps bob_def has_acl_def)

lemma whois_frame_fits:
  "Frame_bytes ascii_codec (whois_frame two_users bob) =
   Inr (projr (Frame_bytes ascii_codec (whois_frame two_users bob)))"
  by (rule Frame_bytes_Inr_projr)
     (simp_all add: whois_frame_bob generic_len_def len_kv_def MAXFRAME_def frame_items_def)

lemma ping_timeout_draw:
  assumes "\<not> timeout u" and "Frame_bytes cd (ping_frame s u now) = Inr b"
  shows "ping_timeout cd now u s =
     map (\<lambda>n. ((None,
                 upd_proto (uproto u) (\<lambda>q. q\<lparr>callbacks := (callbacks q)(''ping'' \<mapsto> n)\<rparr>)
                   (set_user (u\<lparr>timeout := True\<rparr>)
                      (upd_proto (uproto u) (\<lambda>p. p\<lparr>written := written p @ [b]\<rparr>) s))),
                1 / 1501))
         [4500..<6001]"
  using assms
  by (simp add: ping_timeout_def User_send_def DCPProto_send_def ping_frame_def randint_def
      comp_def del: upt_rec_numeral)

lemma map_const_on_set: "\<forall>x\<in>set xs. f x = c \<Longrightarrow> map f xs = replicate (length xs) c"
  by (induction xs) auto

lemma ping_frame_alice:
  "ping_frame two_users alice 1414141414 =
     \<lparr>source = ''=elizabethmyers.me.uk'', target = ''alice'', command = ''ping'',
      kval = [(''time'', [''1414141414''])]\<rparr>"
  by (simp add: ping_frame_def two_users_simps alice_def str_of_int_2014)

lemma ping_frame_fits:
  "Frame_bytes ascii_codec (ping_frame two_users alice 1414141414) =
   Inr (projr (Frame_bytes ascii_codec (ping_frame two_users alice 1414141414)))"
  by (rule Frame_bytes_Inr_projr)
     (simp_all add: ping_frame_alice generic_len_def len_kv_def MAXFRAME_def frame_items_def)

lemma ping_error_frame_alice:
  "error_frame two_users 2 ''ping'' ''Ping timeout'' =
     \<lparr>source = ''=elizabethmyers.me.uk'', target = ''alice'', command = ''error'',
      kval = [(''command'', [''ping'']), (''reason'', [''Ping timeout''])]\<rparr>"
  by (simp add: error_frame_def two_users_simps alice_def)

lemma ping_error_frame_fits:
  "Frame_bytes ascii_codec (error_frame two_users 2 ''ping'' ''Ping timeout'') =
   Inr (projr (Frame_bytes ascii_codec (error_frame two_users 2 ''ping'' ''Ping timeout'')))"
  by (rule Frame_bytes_Inr_projr)
     (simp_all add: ping_error_frame_alice generic_len_def len_kv_def MAXFRAME_def
        frame_items_def)

lemma user_enter_raises: "fst (user_enter cd now c name g acls props opts s) \<noteq> None"
  by (auto simp: user_enter_def new_user_def Let_def User_send_def DCPProto_send_def then_do_def
      split: sum.splits)

subsection \<open>Dispatch\<close>

text \<open>
  C1. The claim: for a read buffer that holds one or more complete binary frames, the
  server decodes each frame and invokes the handler bound to its command, frame by frame
  in arrival order. In the code, \<open>process\<close> puts what \<open>Frame.parse\<close> returns, one frame, in a
  \<open>for\<close> statement, and a frame is not iterable. So \<open>process\<close> returns normally on no
  input: it raises, with the state as it was, whatever the table of handlers is. When
  the bytes decode to a frame, \<open>data_received\<close> answers with its fatal internal error:
  the error frame is written and the transport is closed.
\<close>

theorem frames_are_never_dispatched:
  "(\<exists>e. process cd table c data s = (Some e, s))
   \<and> (case parse cd data of
        Inl e \<Rightarrow> True
      | Inr f \<Rightarrow>
          process_guarded cd table c data s =
            (case Frame_bytes cd (error_frame s c ''*'' internal_error_proto) of
               Inl e \<Rightarrow> (Some e, s)
             | Inr b \<Rightarrow>
                 (None, upd_proto c (\<lambda>p. p\<lparr>written := written p @ [b], closed := True\<rparr>) s)))"
proof -
  have "process_guarded cd table c data s =
            (case Frame_bytes cd (error_frame s c ''*'' internal_error_proto) of
               Inl e \<Rightarrow> (Some e, s)
             | Inr b \<Rightarrow>
                 (None, upd_proto c (\<lambda>p. p\<lparr>written := written p @ [b], closed := True\<rparr>) s))"
    if "parse cd data = Inr f" for f
    using that
    by (simp add: process_guarded_def process_def iter_Frame_def DCPProto_error_no_extargs
        split: sum.splits)
  with process_raises[of cd table c data s] show ?thesis
    by (simp split: sum.splits)
qed

text \<open>
  On a fresh connection of the configured server, a complete \<open>pong\<close> frame is answered
  with the internal error and the connection is closed.
\<close>

theorem frames_are_never_dispatched_witness:
  "fst (data_received ascii_codec (modelled_handlers ascii_codec) 0 pong_input connected) = None
   \<and> closed (protos (snd (data_received ascii_codec (modelled_handlers ascii_codec) 0
                          pong_input connected)) 0)
   \<and> map Inr (written (protos (snd (data_received ascii_codec (modelled_handlers ascii_codec) 0
                          pong_input connected)) 0)) =
     [Frame_bytes ascii_codec
        \<lparr>source = ''=elizabethmyers.me.uk'', target = ''*'', command = ''error'',
         kval = [(''command'', [''*'']), (''reason'', [internal_error_proto])]\<rparr>]"
proof -
  have e: "endswith pong_input [NUL, NUL]"
    by (simp add: pong_input_def endswith_def)
  have dr: "data_received ascii_codec (modelled_handlers ascii_codec) 0 pong_input connected =
      process_guarded ascii_codec (modelled_handlers ascii_codec) 0 pong_input connected"
    using e by (simp add: data_received_def connected_simps)
  have ef: "error_frame connected 0 ''*'' internal_error_proto =
        \<lparr>source = ''=elizabethmyers.me.uk'', target = ''*'', command = ''error'',
         kval = [(''command'', [''*'']), (''reason'', [internal_error_proto])]\<rparr>"
    by (simp add: error_frame_def connected_simps)
  from frames_are_never_dispatched[of ascii_codec "modelled_handlers ascii_codec" 0
      pong_input connected]
  have "process_guarded ascii_codec (modelled_handlers ascii_codec) 0 pong_input connected =
      (case Frame_bytes ascii_codec (error_frame connected 0 ''*'' internal_error_proto) of
         Inl e \<Rightarrow> (Some e, connected)
       | Inr b \<Rightarrow>
           (None, upd_proto 0 (\<lambda>p. p\<lparr>written := written p @ [b], closed := True\<rparr>) connected))"
    by (simp add: parse_pong_input)
  with dr internal_error_frame_fits show ?thesis
    by (simp add: upd_proto_apply connected_simps ef[symmetric] split: sum.splits)
qed

text \<open>
  Nor does \<open>Frame.parse\<close> take back-to-back frames apart: two \<open>pong\<close> frames in one buffer
  decode to one frame, the bytes of the second spread over its keys and values.
\<close>

lemma parse_two_frames:
  "parse ascii_codec two_pongs =
     Inr \<lparr>source = ''*'', target = ''*'', command = ''pong'',
          kval = [('''', ['''', ''*'']), ([CHR 0x0D], [''*'']), (''*'', [''pong''])]\<rparr>"
proof -
  have tk: "tokenise two_pongs =
      [''*'', ''*'', ''pong'', '''', '''', [CHR 0x0D], ''*'', ''*'', ''pong'', '''']"
    by (simp add: two_pongs_def pong_input_def tokenise_def)
  have a: "endswith two_pongs terminator"
    by (simp add: two_pongs_def pong_input_def endswith_def terminator_def)
  have b: "length two_pongs = 26" by (simp add: two_pongs_def pong_input_def)
  have c: "from_bytes_big (take 2 two_pongs) = 13"
    by (simp add: two_pongs_def pong_input_def from_bytes_big_def)
  show ?thesis
    by (simp add: parse_def a b c tk kv_tokens_def decode_pair_def
        ascii_codec_def ascii_only_def ascii_lower_char_def kv_get_def MAXFRAME_def Let_def)
qed

subsection \<open>Parser failures\<close>

text \<open>
  C2. The claim: when decoding the received bytes fails with a parser error, the session
  emits a non-fatal error frame and the transport is not closed. In the code, the call of
  \<open>error\<close> in the handler of \<open>ParserError\<close> passes the dictionary with the parser's message
  where \<open>fatal\<close> is expected and \<open>False\<close> where \<open>extargs\<close> is. Whether the buffer ends in the
  double null or the bytes up to the last double null are cut off it: when they fail to
  decode, the error frame carries the reason \<open>Parser failure\<close>, not the parser's, and the
  transport is closed.
\<close>

theorem parser_failure_closes:
  "(endswith (buf (protos s c) @ data) [NUL, NUL]
      \<and> parse cd (buf (protos s c) @ data) = Inl e
    \<longrightarrow> data_received cd table c data s =
          (case Frame_bytes cd (error_frame s c ''*'' ''Parser failure'') of
             Inl x \<Rightarrow> (Some x, s)
           | Inr b \<Rightarrow>
               (None, upd_proto c (\<lambda>p. p\<lparr>written := written p @ [b], closed := True\<rparr>) s)))
   \<and> (\<not> endswith (buf (protos s c) @ data) [NUL, NUL]
      \<and> rpartition [NUL, NUL] (buf (protos s c) @ data) = (d, [NUL, NUL], rest)
      \<and> parse cd (d @ [NUL, NUL]) = Inl e
    \<longrightarrow> data_received cd table c data s =
          (case Frame_bytes cd (error_frame s c ''*'' ''Parser failure'') of
             Inl x \<Rightarrow> (Some x, upd_proto c (\<lambda>p. p\<lparr>buf := rest\<rparr>) s)
           | Inr b \<Rightarrow>
               (None, upd_proto c (\<lambda>p. p\<lparr>buf := rest, written := written p @ [b],
                                       closed := True\<rparr>) s)))"
proof -
  have pe: "is_ParserError e" if "parse cd x = Inl e" for x
    using that
    by (auto simp: parse_def Let_def split: if_splits sum.splits dest: fill_kval_Inl)
  have guarded: "process_guarded cd table c x s' =
      DCPProto_error cd c ''*'' ''Parser failure''
        (PyDict [(''reason'', [str_of_error e])]) (PyBool False) s'"
    if "parse cd x = Inl e" for x s'
    using that pe[OF that] by (simp add: process_guarded_def process_def)
  have A: "data_received cd table c data s =
          (case Frame_bytes cd (error_frame s c ''*'' ''Parser failure'') of
             Inl x \<Rightarrow> (Some x, s)
           | Inr b \<Rightarrow>
               (None, upd_proto c (\<lambda>p. p\<lparr>written := written p @ [b], closed := True\<rparr>) s))"
    if "endswith (buf (protos s c) @ data) [NUL, NUL]"
      and "parse cd (buf (protos s c) @ data) = Inl e"
    using that guarded[OF that(2)]
    by (simp add: data_received_def Let_def DCPProto_error_no_extargs split: sum.splits)
  have ef: "error_frame (upd_proto c (\<lambda>p. p\<lparr>buf := rest\<rparr>) s) c ''*'' ''Parser failure''
      = error_frame s c ''*'' ''Parser failure''"
    by (simp add: error_frame_def upd_proto_apply upd_proto_fields)
  have B: "data_received cd table c data s =
          (case Frame_bytes cd (error_frame s c ''*'' ''Parser failure'') of
             Inl x \<Rightarrow> (Some x, upd_proto c (\<lambda>p. p\<lparr>buf := rest\<rparr>) s)
           | Inr b \<Rightarrow>
               (None, upd_proto c (\<lambda>p. p\<lparr>buf := rest, written := written p @ [b],
                                       closed := True\<rparr>) s))"
    if "\<not> endswith (buf (protos s c) @ data) [NUL, NUL]"
      and "rpartition [NUL, NUL] (buf (protos s c) @ data) = (d, [NUL, NUL], rest)"
      and "parse cd (d @ [NUL, NUL]) = Inl e"
    using that guarded[OF that(3)]
    by (simp add: data_received_def Let_def DCPProto_error_no_extargs ef upd_proto_upd_proto
        split: sum.splits)
  from A B show ?thesis by blast
qed

text \<open>On a fresh connection, the input that declares 1500 bytes closes the connection.\<close>

theorem parser_failure_closes_witness:
  "fst (data_received ascii_codec (modelled_handlers ascii_codec) 0 oversize_input connected) = None
   \<and> closed (protos (snd (data_received ascii_codec (modelled_handlers ascii_codec) 0
                          oversize_input connected)) 0)
   \<and> map Inr (written (protos (snd (data_received ascii_codec (modelled_handlers ascii_codec) 0
                          oversize_input connected)) 0)) =
     [Frame_bytes ascii_codec
        \<lparr>source = ''=elizabethmyers.me.uk'', target = ''*'', command = ''error'',
         kval = [(''command'', [''*'']), (''reason'', [''Parser failure''])]\<rparr>]"
proof -
  have a: "endswith (buf (protos connected 0) @ oversize_input) [NUL, NUL]"
    by (simp add: connected_simps oversize_input_def endswith_def)
  have b: "parse ascii_codec (buf (protos connected 0) @ oversize_input) =
      Inl (ParserSizeError ''Frame is too large for the wire'')"
    by (simp add: connected_simps parse_def oversize_input_def endswith_def terminator_def
        from_bytes_big_def MAXFRAME_def)
  have ef: "error_frame connected 0 ''*'' ''Parser failure'' =
        \<lparr>source = ''=elizabethmyers.me.uk'', target = ''*'', command = ''error'',
         kval = [(''command'', [''*'']), (''reason'', [''Parser failure''])]\<rparr>"
    by (simp add: error_frame_def connected_simps)
  from a b
    parser_failure_closes[of connected 0 oversize_input ascii_codec
      "ParserSizeError ''Frame is too large for the wire''" "modelled_handlers ascii_codec"]
  have "data_received ascii_codec (modelled_handlers ascii_codec) 0 oversize_input connected =
          (case Frame_bytes ascii_codec (error_frame connected 0 ''*'' ''Parser failure'') of
             Inl x \<Rightarrow> (Some x, connected)
           | Inr b \<Rightarrow>
               (None, upd_proto 0 (\<lambda>p. p\<lparr>written := written p @ [b], closed := True\<rparr>)
                        connected))"
    by blast
  with parser_error_frame_fits show ?thesis
    by (simp add: upd_proto_apply connected_simps ef[symmetric] split: sum.splits)
qed

subsection \<open>Signon\<close>

text \<open>
  C3. The claim: a successful signon emits a \<open>signon\<close> frame with \<open>name\<close>, \<open>time\<close> and
  \<open>version\<close>, and then at least one \<open>motd\<close> frame. In the code, \<open>user_enter\<close> never
  completes: on a connection whose signon timer is armed, and when the \<open>signon\<close> frame
  fits, it writes that one frame to the connection, writes nothing else anywhere, and
  raises \<open>NameError\<close> at the call of \<open>cmd_motd\<close>.
\<close>

theorem user_enter_sends_no_motd:
  "fst (user_enter cd now c name g acls props opts s) \<noteq> None
   \<and> (callbacks (protos s c) ''signon'' = Some d
       \<and> Frame_bytes cd (signon_frame s name now) = Inr b
      \<longrightarrow> fst (user_enter cd now c name g acls props opts s) = Some (NameError ''line'')
        \<and> written (protos (snd (user_enter cd now c name g acls props opts s)) c)
            = written (protos s c) @ [b]
        \<and> (\<forall>c'. c' \<noteq> c \<longrightarrow>
              written (protos (snd (user_enter cd now c name g acls props opts s)) c')
                = written (protos s c')))"
proof -
  have "fst (user_enter cd now c name g acls props opts s) = Some (NameError ''line'')
        \<and> written (protos (snd (user_enter cd now c name g acls props opts s)) c)
            = written (protos s c) @ [b]
        \<and> (\<forall>c'. c' \<noteq> c \<longrightarrow>
              written (protos (snd (user_enter cd now c name g acls props opts s)) c')
                = written (protos s c'))"
    if cb: "callbacks (protos s c) ''signon'' = Some d"
      and fb: "Frame_bytes cd (signon_frame s name now) = Inr b"
  proof -
    from cb have dm: "''signon'' \<in> dom (callbacks (protos s c))" by auto
    from fb have fb': "Frame_bytes cd
         \<lparr>source = ''='' @ sname s, target = name, command = ''signon'',
          kval = [(''name'', [sname s]), (''time'', [str_of_int now]),
              (''version'', [''Minnow prototype server'', ''v0.1-prealpha'']),
              (''options'', [])]\<rparr> = Inr b" by (simp add: signon_frame_def)
    show ?thesis
      using dm fb'
      by (simp add: user_enter_def new_user_def Let_def User_send_def DCPProto_send_def then_do_simps
          upd_proto_apply upd_proto_fields)
  qed
  with user_enter_raises show ?thesis by blast
qed

theorem user_enter_sends_no_motd_witness:
  "fst (user_enter ascii_codec 1414141414 0 ''alice'' ''Alice'' [] [] [] connected)
     = Some (NameError ''line'')
   \<and> map Inr (written (protos (snd (user_enter ascii_codec 1414141414 0 ''alice'' ''Alice''
                                     [] [] [] connected)) 0)) =
     [Frame_bytes ascii_codec
        \<lparr>source = ''=elizabethmyers.me.uk'', target = ''alice'', command = ''signon'',
         kval = [(''name'', [''elizabethmyers.me.uk'']), (''time'', [''1414141414'']),
                 (''version'', [''Minnow prototype server'', ''v0.1-prealpha'']),
                 (''options'', [])]\<rparr>]"
proof -
  have sf: "signon_frame connected ''alice'' 1414141414 =
        \<lparr>source = ''=elizabethmyers.me.uk'', target = ''alice'', command = ''signon'',
         kval = [(''name'', [''elizabethmyers.me.uk'']), (''time'', [''1414141414'']),
                 (''version'', [''Minnow prototype server'', ''v0.1-prealpha'']),
                 (''options'', [])]\<rparr>"
    by (simp add: signon_frame_def connected_simps str_of_int_2014)
  from user_enter_sends_no_motd[of ascii_codec 1414141414 0 "''alice''" "''Alice''" "[]" "[]" "[]"
      connected 6000 "projr (Frame_bytes ascii_codec (signon_frame connected ''alice'' 1414141414))"]
    connected_callbacks signon_frame_fits
  show ?thesis by (simp add: connected_simps sf[symmetric])
qed

subsection \<open>Whois\<close>

text \<open>
  C4. The claim: the \<open>whois\<close> reply has \<open>handle\<close> and \<open>gecos\<close>, has \<open>acl\<close> exactly when the
  requesting user holds \<open>user:auspex\<close>, and is delivered to the requester. In the code,
  after line 324 \<open>user\<close> is the target: for a valid target that is online and in no
  group, the reply has \<open>acl\<close> exactly when the target holds \<open>user:auspex\<close>, and is written
  to the connection of the target, whoever asks.
\<close>

theorem whois_answers_the_target:
  assumes "target line \<noteq> ''*''" and "\<not> startswith (target line) ''=''"
    and "\<not> startswith (target line) ''#''"
    and "users s (target line) = Some t" and "ugroups t = []"
    and "Frame_bytes cd (whois_frame s t) = Inr b"
  shows "cmd_whois cd u line s =
     (None, upd_proto (uproto t) (\<lambda>p. p\<lparr>written := written p @ [b]\<rparr>) s)"
proof (cases "has_acl t ''user:auspex''")
  case True
  with assms show ?thesis
    by (simp add: cmd_whois_def Let_def User_send_def DCPProto_send_def whois_frame_def)
next
  case False
  with assms show ?thesis
    by (simp add: cmd_whois_def Let_def User_send_def DCPProto_send_def whois_frame_def)
qed

text \<open>
  \<open>alice\<close> holds \<open>user:auspex\<close> and asks for \<open>bob\<close>, who does not: nothing is written to
  the connection of \<open>alice\<close>, and the reply, without \<open>acl\<close>, goes to \<open>bob\<close>.
\<close>

theorem whois_answers_the_target_witness:
  "has_acl alice ''user:auspex''
   \<and> fst (cmd_whois ascii_codec alice whois_bob two_users) = None
   \<and> written (protos (snd (cmd_whois ascii_codec alice whois_bob two_users)) (uproto alice)) = []
   \<and> map Inr (written (protos (snd (cmd_whois ascii_codec alice whois_bob two_users))
                          (uproto bob))) =
     [Frame_bytes ascii_codec
        \<lparr>source = ''=elizabethmyers.me.uk'', target = ''bob'', command = ''whois'',
         kval = [(''handle'', [''bob'']), (''gecos'', [''Bob''])]\<rparr>]"
proof -
  have a: "target whois_bob \<noteq> ''*''" by (simp add: whois_bob_def)
  have b: "\<not> startswith (target whois_bob) ''=''" by (simp add: whois_bob_def startswith_def)
  have c: "\<not> startswith (target whois_bob) ''#''" by (simp add: whois_bob_def startswith_def)
  have d: "users two_users (target whois_bob) = Some bob"
    by (simp add: whois_bob_def two_users_simps)
  have e: "ugroups bob = []" by (simp add: bob_def)
  have f: "has_acl alice ''user:auspex''" by (simp add: has_acl_def alice_def)
  have g: "uproto alice = 2" "uproto bob = 3" by (simp_all add: alice_def bob_def)
  from whois_answers_the_target[OF a b c d e whois_frame_fits, of alice] f
  show ?thesis
    by (simp add: upd_proto_apply two_users_simps g whois_frame_bob[symmetric]
        whois_frame_fits[symmetric])
qed

subsection \<open>Liveness\<close>

text \<open>
  C9, as amended. On a tick of the ping timer for a user: if the pending-ping flag is set,
  the server sends the error \<open>Ping timeout\<close> for the command \<open>ping\<close> and closes the
  transport, and draws nothing. Otherwise it sends a \<open>ping\<close> frame whose \<open>time\<close> is the
  rounded clock, sets the flag, and arms the \<open>ping\<close> timer with an interval drawn
  uniformly from the 1501 values from 45.00 to 60.00 seconds in steps of a hundredth,
  both ends included: each of the delays 4500 to 6000, in hundredths, has the probability
  1/1501. \<open>pong\<close> clears the flag. (Each frame is sent when it fits the size limit of
  \<open>Frame.__bytes__\<close>.)
\<close>

theorem ping_timeout_tick:
  "(timeout u \<and> Frame_bytes cd (error_frame s (uproto u) ''ping'' ''Ping timeout'') = Inr b
      \<longrightarrow> ping_timeout cd now u s =
            [((None, upd_proto (uproto u)
                       (\<lambda>p. p\<lparr>written := written p @ [b], closed := True\<rparr>) s), 1)])
   \<and> (\<not> timeout u \<and> Frame_bytes cd (ping_frame s u now) = Inr b'
      \<longrightarrow> map snd (ping_timeout cd now u s) = replicate 1501 (1 / 1501)
        \<and> map (\<lambda>(r, p). callbacks (protos (snd r) (uproto u)) ''ping'') (ping_timeout cd now u s)
            = map Some [4500..<6001]
        \<and> (\<forall>(r, p) \<in> set (ping_timeout cd now u s).
              fst r = None
              \<and> written (protos (snd r) (uproto u)) = written (protos s (uproto u)) @ [b']
              \<and> closed (protos (snd r) (uproto u)) = closed (protos s (uproto u))
              \<and> puser (protos (snd r) (uproto u)) = Some (u\<lparr>timeout := True\<rparr>)))
   \<and> puser (protos (snd (cmd_pong cd u line s)) (uproto u)) = Some (u\<lparr>timeout := False\<rparr>)"
proof -
  have A: "ping_timeout cd now u s =
            [((None, upd_proto (uproto u)
                       (\<lambda>p. p\<lparr>written := written p @ [b], closed := True\<rparr>) s), 1)]"
    if "timeout u" "Frame_bytes cd (error_frame s (uproto u) ''ping'' ''Ping timeout'') = Inr b"
    using that
    by (simp add: ping_timeout_def DCPServer_error_def DCPProto_error_no_extargs)
  have B: "map snd (ping_timeout cd now u s) = replicate 1501 (1 / 1501)
        \<and> map (\<lambda>(r, p). callbacks (protos (snd r) (uproto u)) ''ping'') (ping_timeout cd now u s)
            = map Some [4500..<6001]
        \<and> (\<forall>(r, p) \<in> set (ping_timeout cd now u s).
              fst r = None
              \<and> written (protos (snd r) (uproto u)) = written (protos s (uproto u)) @ [b']
              \<and> closed (protos (snd r) (uproto u)) = closed (protos s (uproto u))
              \<and> puser (protos (snd r) (uproto u)) = Some (u\<lparr>timeout := True\<rparr>))"
    if "\<not> timeout u" "Frame_bytes cd (ping_frame s u now) = Inr b'"
  proof -
    note d = ping_timeout_draw[OF that]
    have 1: "map snd (ping_timeout cd now u s) = replicate 1501 (1 / 1501)"
      unfolding d by (simp add: comp_def map_replicate_const del: upt_rec_numeral)
    have 2: "map (\<lambda>(r, p). callbacks (protos (snd r) (uproto u)) ''ping'')
               (ping_timeout cd now u s) = map Some [4500..<6001]"
      unfolding d by (simp add: comp_def upd_proto_apply del: upt_rec_numeral)
    have 3: "\<forall>(r, p) \<in> set (ping_timeout cd now u s).
              fst r = None
              \<and> written (protos (snd r) (uproto u)) = written (protos s (uproto u)) @ [b']
              \<and> closed (protos (snd r) (uproto u)) = closed (protos s (uproto u))
              \<and> puser (protos (snd r) (uproto u)) = Some (u\<lparr>timeout := True\<rparr>)"
      unfolding d by (auto simp: set_user_def upd_proto_apply simp del: upt_rec_numeral)
    from 1 2 3 show ?thesis by (intro conjI)
  qed
  have D: "puser (protos (snd (cmd_pong cd u line s)) (uproto u)) = Some (u\<lparr>timeout := False\<rparr>)"
    by (simp add: cmd_pong_def set_user_def upd_proto_apply)
  from A B D show ?thesis by blast
qed

text \<open>
  For \<open>alice\<close> with no ping pending: 1501 outcomes of equal probability, one for each
  delay, each with the \<open>ping\<close> frame written and the flag set. With a ping pending: the
  one outcome, the error frame written and the transport closed.
\<close>

theorem ping_timeout_tick_witness:
  "map snd (ping_timeout ascii_codec 1414141414 alice two_users) = replicate 1501 (1 / 1501)
   \<and> map (\<lambda>(r, p). callbacks (protos (snd r) 2) ''ping'')
         (ping_timeout ascii_codec 1414141414 alice two_users) = map Some [4500..<6001]
   \<and> map (\<lambda>(r, p). (fst r, map Inr (written (protos (snd r) 2)), closed (protos (snd r) 2),
                    puser (protos (snd r) 2)))
         (ping_timeout ascii_codec 1414141414 alice two_users)
       = replicate 1501
           (None,
            [Frame_bytes ascii_codec
               \<lparr>source = ''=elizabethmyers.me.uk'', target = ''alice'', command = ''ping'',
                kval = [(''time'', [''1414141414''])]\<rparr>],
            False, Some (alice\<lparr>timeout := True\<rparr>))
   \<and> map (\<lambda>(r, p). (fst r, map Inr (written (protos (snd r) 2)), closed (protos (snd r) 2), p))
         (ping_timeout ascii_codec 1414141414 (alice\<lparr>timeout := True\<rparr>) two_users)
       = [(None,
           [Frame_bytes ascii_codec
              \<lparr>source = ''=elizabethmyers.me.uk'', target = ''alice'', command = ''error'',
               kval = [(''command'', [''ping'']), (''reason'', [''Ping timeout''])]\<rparr>],
           True, 1)]"
proof -
  let ?D = "ping_timeout ascii_codec 1414141414 alice two_users"
  have g: "uproto alice = 2" "\<not> timeout alice" "uproto (alice\<lparr>timeout := True\<rparr>) = 2"
    "timeout (alice\<lparr>timeout := True\<rparr>)"
    by (simp_all add: alice_def)
  note t1 = ping_timeout_tick[of alice ascii_codec two_users
      "projr (Frame_bytes ascii_codec (error_frame two_users 2 ''ping'' ''Ping timeout''))"
      1414141414
      "projr (Frame_bytes ascii_codec (ping_frame two_users alice 1414141414))"]
  note t2 = ping_timeout_tick[of "alice\<lparr>timeout := True\<rparr>" ascii_codec two_users
      "projr (Frame_bytes ascii_codec (error_frame two_users 2 ''ping'' ''Ping timeout''))"
      1414141414
      "projr (Frame_bytes ascii_codec (ping_frame two_users alice 1414141414))"]
  from t1 g ping_frame_fits
  have w1: "map snd ?D = replicate 1501 (1 / 1501)"
    and w2: "map (\<lambda>(r, p). callbacks (protos (snd r) 2) ''ping'') ?D = map Some [4500..<6001]"
    and all: "\<forall>(r, p) \<in> set ?D.
              fst r = None
              \<and> written (protos (snd r) 2) = written (protos two_users 2)
                   @ [projr (Frame_bytes ascii_codec (ping_frame two_users alice 1414141414))]
              \<and> closed (protos (snd r) 2) = closed (protos two_users 2)
              \<and> puser (protos (snd r) 2) = Some (alice\<lparr>timeout := True\<rparr>)"
    by simp_all
  from w1 have len: "length ?D = 1501" by (metis length_map length_replicate)
  from all ping_frame_fits
  have "\<forall>x \<in> set ?D. (\<lambda>(r, p). (fst r, map Inr (written (protos (snd r) 2)),
                    closed (protos (snd r) 2), puser (protos (snd r) 2))) x
       = (None, [Frame_bytes ascii_codec (ping_frame two_users alice 1414141414)],
            False, Some (alice\<lparr>timeout := True\<rparr>))"
    by (auto simp: two_users_simps)
  from map_const_on_set[OF this] len
  have w3: "map (\<lambda>(r, p). (fst r, map Inr (written (protos (snd r) 2)), closed (protos (snd r) 2),
                    puser (protos (snd r) 2))) ?D
       = replicate 1501
           (None, [Frame_bytes ascii_codec (ping_frame two_users alice 1414141414)],
            False, Some (alice\<lparr>timeout := True\<rparr>))"
    by simp
  from t2 g ping_error_frame_fits
  have "ping_timeout ascii_codec 1414141414 (alice\<lparr>timeout := True\<rparr>) two_users =
      [((None, upd_proto 2 (\<lambda>p. p\<lparr>written := written p @
          [projr (Frame_bytes ascii_codec (error_frame two_users 2 ''ping'' ''Ping timeout''))],
          closed := True\<rparr>) two_users), 1)]"
    by simp
  with ping_error_frame_fits
  have w4: "map (\<lambda>(r, p). (fst r, map Inr (written (protos (snd r) 2)),
                         closed (protos (snd r) 2), p))
         (ping_timeout ascii_codec 1414141414 (alice\<lparr>timeout := True\<rparr>) two_users)
       = [(None, [Frame_bytes ascii_codec (error_frame two_users 2 ''ping'' ''Ping timeout'')],
           True, 1)]"
    by (simp add: upd_proto_apply two_users_simps)
  from w1 w2 w3 w4 show ?thesis
    by (simp only: ping_frame_alice ping_error_frame_alice) 
qed

text \<open>
  C9, the claim as stated fails on the number of positions: the tick for \<open>alice\<close> has 1501
  outcomes with 1501 different delays, the first 45.00 and the last 60.00 seconds, and
  not 1500.
\<close>

theorem ping_interval_has_1501_values:
  "length (ping_timeout ascii_codec 1414141414 alice two_users) = 1501
   \<and> distinct (map (\<lambda>(r, p). callbacks (protos (snd r) 2) ''ping'')
                 (ping_timeout ascii_codec 1414141414 alice two_users))
   \<and> map (\<lambda>(r, p). callbacks (protos (snd r) 2) ''ping'')
         (ping_timeout ascii_codec 1414141414 alice two_users) ! 0 = Some 4500
   \<and> map (\<lambda>(r, p). callbacks (protos (snd r) 2) ''ping'')
         (ping_timeout ascii_codec 1414141414 alice two_users) ! 1500 = Some 6000"
proof -
  have na: "\<not> timeout alice" by (simp add: alice_def)
  note d = ping_timeout_draw[OF na ping_frame_fits]
  have m: "map (\<lambda>(r, p). callbacks (protos (snd r) 2) ''ping'')
         (ping_timeout ascii_codec 1414141414 alice two_users) = map Some [4500..<6001]"
    unfolding d by (simp add: comp_def upd_proto_apply alice_def del: upt_rec_numeral)
  have l: "length (ping_timeout ascii_codec 1414141414 alice two_users) = 1501"
    unfolding d by simp
  have dd: "distinct (map Some [4500..<6001 :: nat])"
    by (simp add: distinct_map del: upt_rec_numeral)
  have n0: "map Some [4500..<6001 :: nat] ! 0 = Some 4500"
    by (simp del: upt_rec_numeral)
  have n1: "map Some [4500..<6001 :: nat] ! 1500 = Some 6000"
    by (simp del: upt_rec_numeral)
  from l dd n0 n1 show ?thesis by (simp only: m) 
qed

end
